theory Spec2Isabelle
  imports Main
begin

section \<open>Strings as the extension reads them\<close>

text \<open>
  The extension talks to Git through a command runner and parses what comes back with
  \<^verbatim>\<open>trim\<close>, \<^verbatim>\<open>split\<close> and regular-expression tests. The functions of this section are
  those string operations. A string is the UTF-8 text of the JavaScript string (the runner
  decodes the output of a command as UTF-8), so a character outside ASCII is a sequence of
  two to four bytes.

  White space is what \<^verbatim>\<open>trim\<close> and the class \<^verbatim>\<open>\s\<close> of JavaScript take for it: tab, line
  feed, vertical tab, form feed, carriage return, space, and U+00A0, U+1680, U+2000 to
  U+200A, U+2028, U+2029, U+202F, U+205F, U+3000 and U+FEFF, each by its UTF-8 bytes.
\<close>

definition white_space :: "string list" where
  "white_space =
     map (\<lambda>c. [c]) [CHR 0x09, CHR 0x0A, CHR 0x0B, CHR 0x0C, CHR 0x0D, CHR 0x20]
     @ [[CHR 0xC2, CHR 0xA0], [CHR 0xE1, CHR 0x9A, CHR 0x80]]
     @ map (\<lambda>c. [CHR 0xE2, CHR 0x80, c])
         [CHR 0x80, CHR 0x81, CHR 0x82, CHR 0x83, CHR 0x84, CHR 0x85, CHR 0x86, CHR 0x87,
          CHR 0x88, CHR 0x89, CHR 0x8A, CHR 0xA8, CHR 0xA9, CHR 0xAF]
     @ [[CHR 0xE2, CHR 0x81, CHR 0x9F], [CHR 0xE3, CHR 0x80, CHR 0x80],
        [CHR 0xEF, CHR 0xBB, CHR 0xBF]]"

text \<open>
  The number of bytes of the white-space character a string begins with, 0 when it begins
  with none; \<open>seqs\<close> are the byte sequences of the white-space characters.
\<close>

definition ws_len :: "string list \<Rightarrow> string \<Rightarrow> nat" where
  "ws_len seqs s =
     (case List.find (\<lambda>w. w \<noteq> [] \<and> take (length w) s = w) seqs of
        None \<Rightarrow> 0
      | Some w \<Rightarrow> length w)"

text \<open>The string without the white space it begins with.\<close>

function strip_ws :: "string list \<Rightarrow> string \<Rightarrow> string" where
  "strip_ws seqs s =
     (if ws_len seqs s = 0 then s else strip_ws seqs (drop (ws_len seqs s) s))"
  by pat_completeness auto
termination
proof (relation "measure (\<lambda>(seqs, s). length s)")
  fix seqs :: "string list" and s :: string
  assume "ws_len seqs s \<noteq> 0"
  then obtain w where w: "w \<noteq> []" "take (length w) s = w" "ws_len seqs s = length w"
    by (auto simp: ws_len_def find_Some_iff split: option.splits)
  from w(1,2) have "s \<noteq> []" by auto
  with w(1,3) show "((seqs, drop (ws_len seqs s) s), (seqs, s)) \<in> measure (\<lambda>(seqs, s). length s)"
    by simp
qed simp

declare strip_ws.simps [simp del]

text \<open>
  \<^verbatim>\<open>s.trim()\<close>: white space is taken off both ends; at the end, the bytes of a white-space
  character are looked for backwards.
\<close>

definition trim :: "string \<Rightarrow> string" where
  "trim s = rev (strip_ws (map rev white_space) (rev (strip_ws white_space s)))"

text \<open>
  \<^verbatim>\<open>s.split(/\s+/)\<close>: the pieces between maximal runs of white space; the flag says that
  the character before was white space. The empty string gives one empty piece.
\<close>

function split_ws_from :: "bool \<Rightarrow> string \<Rightarrow> string list" where
  "split_ws_from prev s =
     (if s = [] then [[]]
      else if ws_len white_space s \<noteq> 0 then
        (if prev then split_ws_from True (drop (ws_len white_space s) s)
         else [] # split_ws_from True (drop (ws_len white_space s) s))
      else (case split_ws_from False (tl s) of
              [] \<Rightarrow> [[hd s]]
            | w # ws \<Rightarrow> (hd s # w) # ws))"
  by pat_completeness auto
termination
  by (relation "measure (\<lambda>(prev, s). length s)") auto

declare split_ws_from.simps [simp del]

definition split_ws :: "string \<Rightarrow> string list" where
  "split_ws s = split_ws_from False s"

text \<open>\<^verbatim>\<open>s.split(sep)\<close> for a separator of one character.\<close>

fun split_on :: "char \<Rightarrow> string \<Rightarrow> string list" where
  "split_on sep [] = [[]]"
| "split_on sep (c # cs) =
     (if c = sep then [] # split_on sep cs
      else (case split_on sep cs of
              [] \<Rightarrow> [[c]]
            | w # ws \<Rightarrow> (c # w) # ws))"

text \<open>
  \<^verbatim>\<open>s.split(/\r?\n/)\<close>: every line feed separates, and takes a carriage return right
  before it along.
\<close>

definition strip_cr :: "string \<Rightarrow> string" where
  "strip_cr l = (if l \<noteq> [] \<and> last l = CHR 0x0D then butlast l else l)"

definition split_lines :: "string \<Rightarrow> string list" where
  "split_lines s =
     (let ps = split_on (CHR 0x0A) s in map strip_cr (butlast ps) @ [last ps])"

text \<open>\<^verbatim>\<open>out.split(/\r?\n/).map(s => s.trim()).filter(Boolean)\<close>\<close>

definition nonempty_lines :: "string \<Rightarrow> string list" where
  "nonempty_lines out = filter (\<lambda>l. l \<noteq> []) (map trim (split_lines out))"

text \<open>\<^verbatim>\<open>/sub/.test(s)\<close> for a pattern without metacharacters: \<open>sub\<close> occurs in \<open>s\<close>.\<close>

primrec contains :: "string \<Rightarrow> string \<Rightarrow> bool" where
  "contains [] sub = (sub = [])"
| "contains (c # cs) sub = (take (length sub) (c # cs) = sub \<or> contains cs sub)"

text \<open>The flag \<^verbatim>\<open>i\<close> of a regular expression: ASCII letters match in either case.\<close>

definition to_lower :: "char \<Rightarrow> char" where
  "to_lower c =
     (let n = (of_char c :: nat) in if 65 \<le> n \<and> n \<le> 90 then char_of (n + 32) else c)"

definition contains_ci :: "string \<Rightarrow> string \<Rightarrow> bool" where
  "contains_ci s sub = contains (map to_lower s) (map to_lower sub)"

text \<open>\<^verbatim>\<open>xs.join(sep)\<close>\<close>

fun join :: "string \<Rightarrow> string list \<Rightarrow> string" where
  "join sep [] = []"
| "join sep [x] = x"
| "join sep (x # y # ys) = x @ sep @ join sep (y # ys)"

text \<open>The decimal text of a number, as a template literal prints it.\<close>

fun show_nat :: "nat \<Rightarrow> string" where
  "show_nat n =
     (if n < 10 then [char_of (48 + n)] else show_nat (n div 10) @ [char_of (48 + n mod 10)])"

definition show_int :: "int \<Rightarrow> string" where
  "show_int i = (if i < 0 then CHR ''-'' # show_nat (nat (- i)) else show_nat (nat i))"

section \<open>The command runner\<close>

text \<open>
  Every effect of the extension on the repository is one call of \<^verbatim>\<open>execPromise\<close> (a shell
  command run in the workspace folder) or one call of the file-system module. A value of
  \<open>cmd\<close> is one such call; \<open>command_line\<close> gives the text the extension passes to the shell.
\<close>

datatype cmd =
    MergeBaseIsAncestor string string
  | DiffQuiet
  | DiffCachedQuiet
  | InProgressCheck
  | UpdateRef string string
  | RevParseAbbrevRefHead
  | Checkout string
  | RevListParents1 string
  | RevListParentsReverseHead
  | RevListReverseHead
  | RevListReverseRange string
  | RebaseInteractiveRoot string
  | RebaseAbort
  | RebaseOnto string string "string option"
  | ResetHard string
  | CherryPick string
  | CherryPickSkip
  | CherryPickAbort
  | RevParse string
  | RevParseVerify string
  | Log int string
  | Mkdtemp
  | WriteFile string string
  | RmTree string

fun command_line :: "cmd \<Rightarrow> string" where
  "command_line (MergeBaseIsAncestor commit branch) =
     ''git merge-base --is-ancestor '' @ commit @ '' '' @ branch"
| "command_line DiffQuiet = ''git diff --quiet || echo DIRTY''"
| "command_line DiffCachedQuiet = ''git diff --cached --quiet || echo DIRTY''"
| "command_line InProgressCheck =
     ''sh -c \"[ -d .git/rebase-merge ] || [ -d .git/rebase-apply ] || [ -f .git/MERGE_HEAD ] || [ -f .git/CHERRY_PICK_HEAD ] || [ -f .git/REVERT_HEAD ] && echo BUSY || true\"''"
| "command_line (UpdateRef ref new) = ''git update-ref '' @ ref @ '' '' @ new"
| "command_line RevParseAbbrevRefHead = ''git rev-parse --abbrev-ref HEAD''"
| "command_line (Checkout branch) = ''git checkout '' @ branch"
| "command_line (RevListParents1 commit) = ''git rev-list --parents -n 1 '' @ commit"
| "command_line RevListParentsReverseHead = ''git rev-list --parents --reverse HEAD''"
| "command_line RevListReverseHead = ''git rev-list --reverse HEAD''"
| "command_line (RevListReverseRange parent) = ''git rev-list --reverse '' @ parent @ ''..HEAD''"
| "command_line (RebaseInteractiveRoot editor) = ''git rebase -i --root''"
| "command_line RebaseAbort = ''git rebase --abort''"
| "command_line (RebaseOnto parent commit None) =
     ''git rebase --onto '' @ parent @ '' '' @ commit"
| "command_line (RebaseOnto parent commit (Some branch)) =
     ''git rebase --onto '' @ parent @ '' '' @ commit @ '' '' @ branch"
| "command_line (ResetHard parent) = ''git reset --hard '' @ parent"
| "command_line (CherryPick h) = ''git cherry-pick '' @ h"
| "command_line CherryPickSkip = ''git cherry-pick --skip''"
| "command_line CherryPickAbort = ''git cherry-pick --abort''"
| "command_line (RevParse branch) = ''git rev-parse '' @ branch"
| "command_line (RevParseVerify name) = ''git rev-parse --verify '' @ name"
| "command_line (Log n rangeExpr) =
     ''git log --no-color --date=short --pretty=format:'' @ [CHR 0x27]
       @ ''%H%x1f%s%x1f%an%x1f%ad%x1e'' @ [CHR 0x27] @ '' -n '' @ show_int n
       @ '' \"'' @ rangeExpr @ ''\" --''"
| "command_line Mkdtemp = []"
| "command_line (WriteFile p content) = []"
| "command_line (RmTree p) = []"

text \<open>
  The runner itself is not part of the extension: it is a parameter \<open>run\<close>, which answers a
  command in a world \<open>'w\<close> (the repository, the file system) with the captured standard
  output (\<open>Inr\<close>) or the diagnostic text of the failure (\<open>Inl\<close>, the message of the
  \<^verbatim>\<open>Error\<close> that \<^verbatim>\<open>execPromise\<close> rejects with), and a new world. The state threaded
  through an operation is the world and the list of commands issued so far, oldest first.
\<close>

type_synonym 'w runner = "cmd \<Rightarrow> 'w \<Rightarrow> (string + string) \<times> 'w"

record 'w st =
  world :: 'w
  trace :: "cmd list"

text \<open>The errors an operation rejects with; \<open>CommandFailed\<close> carries the runner's message.\<close>

datatype error =
    NotReachable string string
  | DirtyWorkingState
  | OperationInProgress
  | ReorderRootAcrossMerges
  | ReorderMergeUnsupported
  | DeleteRootAcrossMerges
  | DeleteMergeUnsupported
  | CannotDeleteOnlyCommit
  | RebaseFailed string
  | CommandFailed string

fun message :: "error \<Rightarrow> string" where
  "message (NotReachable commit branch) =
     ''Commit '' @ commit @ '' is not reachable from '' @ branch @ ''.''"
| "message DirtyWorkingState =
     ''Working tree has uncommitted changes. Please commit or stash before proceeding.''"
| "message OperationInProgress =
     ''Another Git operation is in progress (rebase/merge/cherry-pick). Please abort/finish it first.''"
| "message ReorderRootAcrossMerges =
     ''Reordering from root across merge commits is not supported.''"
| "message ReorderMergeUnsupported = ''Reordering merge commits is not supported.''"
| "message DeleteRootAcrossMerges =
     ''Deleting the root across merge commits is not supported.''"
| "message DeleteMergeUnsupported = ''Deleting merge commits is not supported.''"
| "message CannotDeleteOnlyCommit =
     ''Cannot delete the only commit on the branch. Delete the branch instead.''"
| "message (RebaseFailed m) = ''Rebase failed while deleting commit. '' @ m"
| "message (CommandFailed m) = m"

type_synonym ('w, 'a) io = "'w st \<Rightarrow> (error + 'a) \<times> 'w st"

definition execPromise :: "'w runner \<Rightarrow> cmd \<Rightarrow> ('w, string) io" where
  "execPromise run c s =
     (case run c (world s) of
        (Inl m, w) \<Rightarrow> (Inl (CommandFailed m), \<lparr>world = w, trace = trace s @ [c]\<rparr>)
      | (Inr out, w) \<Rightarrow> (Inr out, \<lparr>world = w, trace = trace s @ [c]\<rparr>))"

text \<open>\<^verbatim>\<open>await\<close> in sequence: the rest runs on the value, an error ends the sequence.\<close>

definition bind :: "('w, 'a) io \<Rightarrow> ('a \<Rightarrow> ('w, 'b) io) \<Rightarrow> ('w, 'b) io" where
  "bind m f s = (case m s of (Inl e, s') \<Rightarrow> (Inl e, s') | (Inr x, s') \<Rightarrow> f x s')"

definition return :: "'a \<Rightarrow> ('w, 'a) io" where
  "return x s = (Inr x, s)"

definition throw :: "error \<Rightarrow> ('w, 'a) io" where
  "throw e s = (Inl e, s)"

text \<open>\<^verbatim>\<open>p.catch(() => {})\<close>: the failure of \<open>p\<close> is dropped.\<close>

definition catch_ignore :: "('w, 'a) io \<Rightarrow> ('w, unit) io" where
  "catch_ignore m s = (case m s of (r, s') \<Rightarrow> (Inr (), s'))"

text \<open>\<^verbatim>\<open>p.catch(() => v)\<close>, also after a \<^verbatim>\<open>then\<close>: a failure of \<open>p\<close> becomes the value \<open>v\<close>.\<close>

definition catch_value :: "('w, 'a) io \<Rightarrow> 'a \<Rightarrow> ('w, 'a) io" where
  "catch_value m v s = (case m s of (Inl e, s') \<Rightarrow> (Inr v, s') | (Inr x, s') \<Rightarrow> (Inr x, s'))"

text \<open>\<^verbatim>\<open>try { m } catch (e) { h(e) }\<close>\<close>

definition try_catch :: "('w, 'a) io \<Rightarrow> (error \<Rightarrow> ('w, 'a) io) \<Rightarrow> ('w, 'a) io" where
  "try_catch m h s = (case m s of (Inl e, s') \<Rightarrow> h e s' | (Inr x, s') \<Rightarrow> (Inr x, s'))"

text \<open>
  \<^verbatim>\<open>try { m } finally { f }\<close>: \<open>f\<close> runs after \<open>m\<close> however \<open>m\<close> ended. When \<open>f\<close> ends
  normally the outcome is that of \<open>m\<close>; when \<open>f\<close> throws, its error replaces the outcome
  of \<open>m\<close>, as in JavaScript.
\<close>

definition try_finally :: "('w, 'a) io \<Rightarrow> ('w, unit) io \<Rightarrow> ('w, 'a) io" where
  "try_finally m f s =
     (case m s of (r, s1) \<Rightarrow>
        (case f s1 of (Inl e, s2) \<Rightarrow> (Inl e, s2) | (Inr u, s2) \<Rightarrow> (r, s2)))"

section \<open>The checks before a mutation\<close>

text \<open>\<^verbatim>\<open>ensureCleanState\<close>\<close>

definition ensureCleanState :: "'w runner \<Rightarrow> ('w, unit) io" where
  "ensureCleanState run =
     bind (catch_value (bind (execPromise run DiffQuiet) (\<lambda>s. return (contains s ''DIRTY''))) True)
       (\<lambda>dirtyWc.
     bind (catch_value (bind (execPromise run DiffCachedQuiet) (\<lambda>s. return (contains s ''DIRTY''))) True)
       (\<lambda>dirtyIdx.
     if dirtyWc \<or> dirtyIdx then throw DirtyWorkingState
     else
     bind (catch_value (bind (execPromise run InProgressCheck) (\<lambda>s. return (contains s ''BUSY''))) True)
       (\<lambda>inProgress.
     if inProgress then throw OperationInProgress else return ())))"

text \<open>\<^verbatim>\<open>hasMergesInHistory\<close>\<close>

definition hasMergesInHistory :: "'w runner \<Rightarrow> ('w, bool) io" where
  "hasMergesInHistory run =
     bind (catch_value (execPromise run RevListParentsReverseHead) [])
       (\<lambda>out. return (list_ex (\<lambda>line. line \<noteq> [] \<and> length (split_ws (trim line)) > 2)
                               (split_lines out)))"

text \<open>
  The first lines of both operations: the ancestry test, whose failure of any kind becomes
  \<open>NotReachable\<close>.
\<close>

definition checkAncestor :: "'w runner \<Rightarrow> string \<Rightarrow> string \<Rightarrow> ('w, unit) io" where
  "checkAncestor run branch commit =
     try_catch (bind (execPromise run (MergeBaseIsAncestor commit branch)) (\<lambda>_. return ()))
       (\<lambda>_. throw (NotReachable commit branch))"

text \<open>
  The name of the backup reference: \<open>now\<close> is the text of
  \<^verbatim>\<open>new Date().toISOString()\<close>, in which colons and full stops become hyphens.
\<close>

definition timestamp :: "string \<Rightarrow> string" where
  "timestamp now = map (\<lambda>c. if c = CHR '':'' \<or> c = CHR ''.'' then CHR ''-'' else c) now"

definition backupRefName :: "string \<Rightarrow> string \<Rightarrow> string" where
  "backupRefName branch now = ''refs/backup/git-dnd/'' @ branch @ ''-'' @ timestamp now"

definition createBackup :: "'w runner \<Rightarrow> string \<Rightarrow> string \<Rightarrow> ('w, unit) io" where
  "createBackup run branch now =
     catch_ignore (execPromise run (UpdateRef (backupRefName branch now) branch))"

section \<open>The rewrite from the root\<close>

text \<open>
  Both operations drive \<^verbatim>\<open>git rebase -i --root\<close> with a to-do list written beforehand: a
  temporary directory holds the list and a script that copies it over the file Git would
  open in an editor. On failure the rebase is aborted and the branch reference is set back
  to the backup; the directory is removed in any case, and a failure to remove it is dropped.
\<close>

definition todoText :: "string list \<Rightarrow> string" where
  "todoText hashes = join [CHR 0x0A] (map (\<lambda>h. ''pick '' @ h) hashes) @ [CHR 0x0A]"

definition editorScriptBody :: "string \<Rightarrow> string" where
  "editorScriptBody todoPath =
     ''#!/bin/sh'' @ [CHR 0x0A] @ ''cat \"'' @ todoPath @ ''\" > \"$1\"'' @ [CHR 0x0A]"

definition rebaseRootWithTodo :: "'w runner \<Rightarrow> string \<Rightarrow> string \<Rightarrow> string list \<Rightarrow> ('w, unit) io" where
  "rebaseRootWithTodo run branch backupRef picks =
     bind (execPromise run Mkdtemp) (\<lambda>tmpDir.
     bind (execPromise run (WriteFile (tmpDir @ ''/todo.txt'') (todoText picks))) (\<lambda>_.
     bind (execPromise run (WriteFile (tmpDir @ ''/editor.sh'')
                                      (editorScriptBody (tmpDir @ ''/todo.txt'')))) (\<lambda>_.
     try_finally
       (try_catch
          (bind (execPromise run (RebaseInteractiveRoot (tmpDir @ ''/editor.sh''))) (\<lambda>_. return ()))
          (\<lambda>e.
             bind (catch_ignore (execPromise run RebaseAbort)) (\<lambda>_.
             bind (catch_ignore (execPromise run (UpdateRef (''refs/heads/'' @ branch) backupRef))) (\<lambda>_.
             throw e))))
       (catch_ignore (execPromise run (RmTree tmpDir))))))"

section \<open>Repositioning a commit: \<^verbatim>\<open>makeHead\<close>\<close>

text \<open>
  \<^verbatim>\<open>String(e?.message || e || '')\<close> and \<^verbatim>\<open>${e?.message || e}\<close>: the message of the error, and
  the text \<^verbatim>\<open>Error\<close> when the message is empty.
\<close>

definition errorText :: "error \<Rightarrow> string" where
  "errorText e = (if message e = [] then ''Error'' else message e)"

text \<open>The test of the \<^verbatim>\<open>catch\<close> block of the replay loop on the failure's text.\<close>

definition isEmptyPick :: "string \<Rightarrow> bool" where
  "isEmptyPick msg =
     (contains_ci msg ''previous cherry-pick is now empty''
      \<or> contains_ci msg ''The previous cherry-pick is now empty'')"

text \<open>One round of the loop \<^verbatim>\<open>for (const h of sequence)\<close>.\<close>

definition replayStep :: "'w runner \<Rightarrow> string \<Rightarrow> string \<Rightarrow> string \<Rightarrow> ('w, unit) io" where
  "replayStep run branch backupRef h =
     try_catch (bind (execPromise run (CherryPick h)) (\<lambda>_. return ()))
       (\<lambda>e. if isEmptyPick (errorText e)
             then catch_ignore (execPromise run CherryPickSkip)
             else
               bind (catch_ignore (execPromise run CherryPickAbort)) (\<lambda>_.
               bind (catch_ignore (execPromise run (UpdateRef (''refs/heads/'' @ branch) backupRef))) (\<lambda>_.
               throw e)))"

fun replay :: "'w runner \<Rightarrow> string \<Rightarrow> string \<Rightarrow> string list \<Rightarrow> ('w, unit) io" where
  "replay run branch backupRef [] = return ()"
| "replay run branch backupRef (h # hs) =
     bind (replayStep run branch backupRef h) (\<lambda>_. replay run branch backupRef hs)"

text \<open>The branch \<^verbatim>\<open>parts.length < 2\<close> of \<^verbatim>\<open>makeHead\<close>: the commit is a root.\<close>

definition reorderFromRoot :: "'w runner \<Rightarrow> string \<Rightarrow> string \<Rightarrow> string \<Rightarrow> ('w, unit) io" where
  "reorderFromRoot run branch commit backupRef =
     bind (hasMergesInHistory run) (\<lambda>merges.
     if merges then throw ReorderRootAcrossMerges
     else
     bind (execPromise run RevListReverseHead) (\<lambda>out.
     let hashes = nonempty_lines out in
     if length hashes \<le> 1 then return ()
     else rebaseRootWithTodo run branch backupRef (filter (\<lambda>h. h \<noteq> commit) hashes @ [commit])))"

text \<open>The body of the \<^verbatim>\<open>try\<close> block of \<^verbatim>\<open>makeHead\<close>.\<close>

definition repositionBody :: "'w runner \<Rightarrow> string \<Rightarrow> string \<Rightarrow> string \<Rightarrow> ('w, unit) io" where
  "repositionBody run branch commit backupRef =
     bind (execPromise run (RevListParents1 commit)) (\<lambda>parentsLine.
     let parts = split_ws (trim parentsLine) in
     if length parts < 2 then reorderFromRoot run branch commit backupRef
     else if length parts > 2 then throw ReorderMergeUnsupported
     else
     let parent = parts ! 1 in
     bind (execPromise run (RevListReverseRange parent)) (\<lambda>out.
     let range = nonempty_lines out;
         sequence = filter (\<lambda>h. h \<noteq> commit) range @ [commit] in
     bind (execPromise run (ResetHard parent)) (\<lambda>_.
     replay run branch backupRef sequence)))"

definition checkoutIf :: "'w runner \<Rightarrow> bool \<Rightarrow> string \<Rightarrow> ('w, unit) io" where
  "checkoutIf run b name =
     (if b then bind (execPromise run (Checkout name)) (\<lambda>_. return ()) else return ())"

definition makeHead :: "'w runner \<Rightarrow> string \<Rightarrow> string \<Rightarrow> string \<Rightarrow> ('w, unit) io" where
  "makeHead run now branch commit =
     bind (checkAncestor run branch commit) (\<lambda>_.
     bind (ensureCleanState run) (\<lambda>_.
     bind (createBackup run branch now) (\<lambda>_.
     bind (execPromise run RevParseAbbrevRefHead) (\<lambda>out.
     let currentBranch = trim out;
         switchBack = (currentBranch \<noteq> branch) in
     bind (checkoutIf run switchBack branch) (\<lambda>_.
     try_finally (repositionBody run branch commit (backupRefName branch now))
                 (checkoutIf run switchBack currentBranch))))))"

section \<open>Removing a commit: \<^verbatim>\<open>deleteCommit\<close>\<close>

text \<open>The branch \<^verbatim>\<open>parts.length < 2\<close> of \<^verbatim>\<open>deleteCommit\<close>: the commit is a root.\<close>

definition deleteRoot :: "'w runner \<Rightarrow> string \<Rightarrow> string \<Rightarrow> ('w, unit) io" where
  "deleteRoot run branch backupRef =
     bind (hasMergesInHistory run) (\<lambda>merges.
     if merges then throw DeleteRootAcrossMerges
     else
     bind (execPromise run RevParseAbbrevRefHead) (\<lambda>out.
     let currentBranch = trim out;
         switchBack = (currentBranch \<noteq> branch) in
     bind (checkoutIf run switchBack branch) (\<lambda>_.
     try_finally
       (bind (execPromise run RevListReverseHead) (\<lambda>out.
        let hashes = nonempty_lines out in
        if length hashes \<le> 1 then throw CannotDeleteOnlyCommit
        else rebaseRootWithTodo run branch backupRef (tl hashes)))
       (bind (execPromise run RevParseAbbrevRefHead) (\<lambda>out.
        let headNow = trim out in
        if headNow \<noteq> currentBranch
        then catch_ignore (execPromise run (Checkout currentBranch))
        else return ())))))"

text \<open>The rest of \<^verbatim>\<open>deleteCommit\<close> from line 258 on: the commit has the one parent \<open>parent\<close>.\<close>

definition deleteOneParent :: "'w runner \<Rightarrow> string \<Rightarrow> string \<Rightarrow> string \<Rightarrow> ('w, unit) io" where
  "deleteOneParent run branch commit parent =
     bind (execPromise run (RevParse branch)) (\<lambda>out.
     let tip = trim out in
     bind (execPromise run RevParseAbbrevRefHead) (\<lambda>out.
     let currentBranch = trim out;
         isCurrent = (currentBranch = branch) in
     if tip = commit then
       (if isCurrent
        then bind (execPromise run (ResetHard parent)) (\<lambda>_. return ())
        else bind (execPromise run (UpdateRef (''refs/heads/'' @ branch) parent)) (\<lambda>_. return ()))
     else
       try_catch
         (bind (execPromise run (RebaseOnto parent commit (if isCurrent then None else Some branch)))
               (\<lambda>_. return ()))
         (\<lambda>e. bind (catch_ignore (execPromise run RebaseAbort)) (\<lambda>_.
               throw (RebaseFailed (errorText e))))))"

definition deleteCommit :: "'w runner \<Rightarrow> string \<Rightarrow> string \<Rightarrow> string \<Rightarrow> ('w, unit) io" where
  "deleteCommit run now branch commit =
     bind (checkAncestor run branch commit) (\<lambda>_.
     bind (ensureCleanState run) (\<lambda>_.
     bind (execPromise run (RevListParents1 commit)) (\<lambda>parentsLine.
     let parts = split_ws (trim parentsLine) in
     bind (createBackup run branch now) (\<lambda>_.
     if length parts < 2 then deleteRoot run branch (backupRefName branch now)
     else if length parts > 2 then throw DeleteMergeUnsupported
     else deleteOneParent run branch commit (parts ! 1)))))"

section \<open>Listing commits: \<^verbatim>\<open>getCommits\<close>\<close>

record commit_info =
  hash :: string
  fullHash :: string
  subject :: "string option"
  author :: "string option"
  date :: "string option"

definition sanitize :: "string \<Rightarrow> string" where
  "sanitize s = concat (map (\<lambda>c. if c = CHR 0x22 then [CHR 0x5C, CHR 0x22] else [c]) s)"

definition nth_opt :: "'a list \<Rightarrow> nat \<Rightarrow> 'a option" where
  "nth_opt xs i = (if i < length xs then Some (xs ! i) else None)"

text \<open>
  One record of the log's output; a field the record lacks is \<^verbatim>\<open>undefined\<close>, here \<open>None\<close>.
  The first field is the commit's name as \<^verbatim>\<open>%H\<close> prints it, hexadecimal digits, of which
  \<^verbatim>\<open>slice(0, 7)\<close> takes the first seven characters, here bytes.
\<close>

definition parseRecord :: "string \<Rightarrow> commit_info" where
  "parseRecord r =
     (let fields = split_on (CHR 0x1F) r;
          full = (case nth_opt fields 0 of None \<Rightarrow> [] | Some f \<Rightarrow> f) in
      \<lparr>hash = take 7 full, fullHash = full, subject = nth_opt fields 1,
       author = nth_opt fields 2, date = nth_opt fields 3\<rparr>)"

definition parseLog :: "string \<Rightarrow> commit_info list" where
  "parseLog stdout =
     map parseRecord (filter (\<lambda>r. r \<noteq> []) (map trim (split_on (CHR 0x1E) stdout)))"

text \<open>\<^verbatim>\<open>git rev-parse --verify name\<close> inside a \<^verbatim>\<open>try\<close> with an empty \<^verbatim>\<open>catch\<close>.\<close>

definition verifyBase :: "'w runner \<Rightarrow> string \<Rightarrow> ('w, string option) io" where
  "verifyBase run name =
     catch_value (bind (execPromise run (RevParseVerify name)) (\<lambda>_. return (Some name))) None"

text \<open>The loop \<^verbatim>\<open>for (const candidate of ['main', 'master'])\<close>.\<close>

fun fallbackBase :: "'w runner \<Rightarrow> string option \<Rightarrow> string list \<Rightarrow> ('w, string option) io" where
  "fallbackBase run base [] = return base"
| "fallbackBase run base (candidate # cs) =
     (case base of
        Some b \<Rightarrow> fallbackBase run base cs
      | None \<Rightarrow>
          bind (verifyBase run candidate) (\<lambda>found.
          case found of
            Some b \<Rightarrow> return found
          | None \<Rightarrow> fallbackBase run None cs))"

text \<open>
  \<open>compareBase\<close> is the setting \<^verbatim>\<open>gitify.compareBase\<close> of the editor's configuration,
  \<open>None\<close> when it is not set or cannot be read; \<open>limit\<close> is an integer.
\<close>

definition getCommits :: "'w runner \<Rightarrow> string option \<Rightarrow> string \<Rightarrow> int \<Rightarrow> ('w, commit_info list) io" where
  "getCommits run compareBase ref limit =
     (let n = max 1 (min 500 limit);
          configured = trim (case compareBase of None \<Rightarrow> [] | Some v \<Rightarrow> v) in
      bind (if configured \<noteq> [] then verifyBase run configured else return None) (\<lambda>base0.
      bind (fallbackBase run base0 [''main'', ''master'']) (\<lambda>base.
      let rangeExpr =
            (case base of
               Some b \<Rightarrow> if b \<noteq> ref then sanitize b @ ''..'' @ sanitize ref else sanitize ref
             | None \<Rightarrow> sanitize ref) in
      bind (execPromise run (Log n rangeExpr)) (\<lambda>stdout.
      return (parseLog stdout)))))"

section \<open>A repository to run the commands on\<close>

text \<open>
  Modelled from the spec: the command runner and the version-control system behind it,
  which the extension starts as a separate program. The model follows the spec's data
  model and glossary: a commit is an immutable node with its parents and the change it
  introduces, a branch is a named reference to its tip, a replay re-applies a commit's
  change on another base and gives a commit of a new identity, a commit whose change the
  base already holds replays to nothing. A commit names the changes its own change is
  made on top of; replaying it on a base that lacks one of them is a conflict. The commits
  of a history with merges are listed parents first, not by date. A name given to a command
  is read as Git reads a revision.
\<close>

record commit =
  parents :: "string list"
  change :: string
  needs :: "string list"

datatype progress = Idle | CherryPicking | Rebasing

record repo =
  objects :: "(string \<times> commit) list"
  refs :: "(string \<times> string) list"
  HEAD :: string
  staged :: string
  worktree :: string
  inProgress :: progress
  files :: "(string \<times> string) list"
  tmpCount :: nat

definition setRef :: "string \<Rightarrow> string \<Rightarrow> (string \<times> string) list \<Rightarrow> (string \<times> string) list" where
  "setRef name h rs = (name, h) # filter (\<lambda>p. fst p \<noteq> name) rs"

definition headRef :: "repo \<Rightarrow> string" where
  "headRef r = ''refs/heads/'' @ HEAD r"

text \<open>
  An abbreviated commit name: four characters or more that begin the name of exactly one
  commit.
\<close>

definition abbreviated :: "repo \<Rightarrow> string \<Rightarrow> string option" where
  "abbreviated r name =
     (case filter (\<lambda>h. take (length name) h = name) (map fst (objects r)) of
        [h] \<Rightarrow> if 4 \<le> length name then Some h else None
      | _ \<Rightarrow> None)"

text \<open>
  The commit a name stands for, by Git's rules for a revision: \<^verbatim>\<open>HEAD\<close>; a commit's full
  name; a reference, looked for as \<^verbatim>\<open><name>\<close>, \<^verbatim>\<open>refs/<name>\<close>, \<^verbatim>\<open>refs/tags/<name>\<close>,
  \<^verbatim>\<open>refs/heads/<name>\<close>, \<^verbatim>\<open>refs/remotes/<name>\<close>, the first that exists; an abbreviated
  commit name. So a tag stands before a branch of the same name.
\<close>

definition refCandidates :: "string \<Rightarrow> string list" where
  "refCandidates name =
     [name, ''refs/'' @ name, ''refs/tags/'' @ name, ''refs/heads/'' @ name,
      ''refs/remotes/'' @ name]"

definition resolve :: "repo \<Rightarrow> string \<Rightarrow> string option" where
  "resolve r name =
     (if name = ''HEAD'' then map_of (refs r) (headRef r)
      else if map_of (objects r) name \<noteq> None then Some name
      else case List.find (\<lambda>n. map_of (refs r) n \<noteq> None) (refCandidates name) of
        Some n \<Rightarrow> map_of (refs r) n
      | None \<Rightarrow> abbreviated r name)"

text \<open>A commit and its ancestors, newest first; the fuel bounds the depth of the history.\<close>

fun ancestorsFrom :: "nat \<Rightarrow> (string \<times> commit) list \<Rightarrow> string \<Rightarrow> string list" where
  "ancestorsFrom 0 objs h = []"
| "ancestorsFrom (Suc k) objs h =
     (case map_of objs h of
        None \<Rightarrow> []
      | Some c \<Rightarrow> h # concat (map (ancestorsFrom k objs) (parents c)))"

definition ancestors :: "repo \<Rightarrow> string \<Rightarrow> string list" where
  "ancestors r h = remdups (ancestorsFrom (length (objects r)) (objects r) h)"

definition changesAt :: "repo \<Rightarrow> string option \<Rightarrow> string list" where
  "changesAt r tip =
     (case tip of
        None \<Rightarrow> []
      | Some t \<Rightarrow> concat (map (\<lambda>h. case map_of (objects r) h of None \<Rightarrow> [] | Some c \<Rightarrow> [change c])
                              (ancestors r t)))"

text \<open>
  A name no commit has yet: the replayed commit's name with a prime before it (so that
  the new name does not begin like the old one, as a new hash does not).
\<close>

fun freshName :: "nat \<Rightarrow> string list \<Rightarrow> string \<Rightarrow> string" where
  "freshName 0 used h = h"
| "freshName (Suc k) used h =
     (if h \<in> set used then freshName k used (CHR 0x27 # h) else h)"

text \<open>
  Replaying commit \<open>h\<close> on the tip \<open>tip\<close> (\<open>None\<close>: on no history at all): nothing to
  replay when the change is already there, a conflict when a change it needs is not, else
  the new tip and the repository holding the new commit.
\<close>

datatype replayed = Empty | Conflict | Picked string repo

definition replayOne :: "repo \<Rightarrow> string option \<Rightarrow> string \<Rightarrow> replayed" where
  "replayOne r tip h =
     (case map_of (objects r) h of
        None \<Rightarrow> Conflict
      | Some c \<Rightarrow>
          if change c \<in> set (changesAt r tip) then Empty
          else if \<not> list_all (\<lambda>n. n \<in> set (changesAt r tip)) (needs c) then Conflict
          else
            let n = freshName (Suc (length (objects r))) (map fst (objects r)) (CHR 0x27 # h);
                new = \<lparr>parents = (case tip of None \<Rightarrow> [] | Some t \<Rightarrow> [t]),
                       change = change c, needs = needs c\<rparr>
            in Picked n (r\<lparr>objects := (n, new) # objects r\<rparr>))"

text \<open>
  A rebase replays a list of commits, drops those that replay to nothing and stops at a
  conflict (\<open>None\<close>).
\<close>

fun replayAll :: "string list \<Rightarrow> string option \<Rightarrow> repo \<Rightarrow> (string option \<times> repo) option" where
  "replayAll [] tip r = Some (tip, r)"
| "replayAll (h # hs) tip r =
     (case replayOne r tip h of
        Empty \<Rightarrow> replayAll hs tip r
      | Conflict \<Rightarrow> None
      | Picked n r' \<Rightarrow> replayAll hs (Some n) r')"

definition conflictText :: string where
  "conflictText = ''error: could not apply the commit: CONFLICT (content)''"

definition moveHeadTo :: "repo \<Rightarrow> string \<Rightarrow> repo" where
  "moveHeadTo r h = r\<lparr>refs := setRef (headRef r) h (refs r), staged := h, worktree := h\<rparr>"

definition isClean :: "repo \<Rightarrow> bool" where
  "isClean r = (worktree r = staged r \<and> Some (staged r) = resolve r ''HEAD'')"

text \<open>
  A checkout of another branch is refused when the index or the working tree differ from
  the current tip, unless both already hold the content of the branch's tip.
\<close>

definition switchTo :: "repo \<Rightarrow> string \<Rightarrow> (string + string) \<times> repo" where
  "switchTo r b =
     (case map_of (refs r) (''refs/heads/'' @ b) of
        None \<Rightarrow> (Inl (''error: pathspec '' @ b @ '' did not match any file(s) known to git''), r)
      | Some h \<Rightarrow>
          if isClean r \<or> (staged r = h \<and> worktree r = h)
          then (Inr [], r\<lparr>HEAD := b, staged := h, worktree := h\<rparr>)
          else (Inl ''error: Your local changes would be overwritten by checkout'', r))"

definition revLine :: "repo \<Rightarrow> string \<Rightarrow> string" where
  "revLine r h =
     join '' '' (h # (case map_of (objects r) h of None \<Rightarrow> [] | Some c \<Rightarrow> parents c)) @ [CHR 0x0A]"

definition unlines :: "string list \<Rightarrow> string" where
  "unlines ls = concat (map (\<lambda>l. l @ [CHR 0x0A]) ls)"

text \<open>The lines \<^verbatim>\<open>pick <hash>\<close> of a to-do list.\<close>

definition todoPicks :: "string \<Rightarrow> string list" where
  "todoPicks todo = map (drop 5) (filter (\<lambda>l. take 5 l = ''pick '') (nonempty_lines todo))"

fun splitDots :: "string \<Rightarrow> (string \<times> string) option" where
  "splitDots [] = None"
| "splitDots [c] = None"
| "splitDots (c # d # cs) =
     (if c = CHR ''.'' \<and> d = CHR ''.'' then Some ([], cs)
      else map_option (\<lambda>(a, b). (c # a, b)) (splitDots (d # cs)))"

definition logRecord :: "repo \<Rightarrow> string \<Rightarrow> string" where
  "logRecord r h =
     h @ [CHR 0x1F] @ (case map_of (objects r) h of None \<Rightarrow> [] | Some c \<Rightarrow> change c)
       @ [CHR 0x1F, CHR 0x1F, CHR 0x1E]"

definition notName :: "string \<Rightarrow> string" where
  "notName n = ''fatal: Not a valid object name '' @ n"

fun git :: "cmd \<Rightarrow> repo \<Rightarrow> (string + string) \<times> repo" where
  "git (MergeBaseIsAncestor commit branch) r =
     (case (resolve r commit, resolve r branch) of
        (Some c, Some t) \<Rightarrow>
          if c \<in> set (ancestors r t) then (Inr [], r)
          else (Inl (''Command failed: '' @ command_line (MergeBaseIsAncestor commit branch)), r)
      | _ \<Rightarrow> (Inl (notName commit), r))"
| "git DiffQuiet r = (Inr (if worktree r \<noteq> staged r then ''DIRTY'' @ [CHR 0x0A] else []), r)"
| "git DiffCachedQuiet r =
     (Inr (if Some (staged r) \<noteq> resolve r ''HEAD'' then ''DIRTY'' @ [CHR 0x0A] else []), r)"
| "git InProgressCheck r = (Inr (if inProgress r \<noteq> Idle then ''BUSY'' @ [CHR 0x0A] else []), r)"
| "git (UpdateRef ref new) r =
     (case resolve r new of
        None \<Rightarrow> (Inl (''fatal: '' @ new @ '': not a valid SHA1''), r)
      | Some h \<Rightarrow> (Inr [], r\<lparr>refs := setRef ref h (refs r)\<rparr>))"
| "git RevParseAbbrevRefHead r = (Inr (HEAD r @ [CHR 0x0A]), r)"
| "git (Checkout branch) r = switchTo r branch"
| "git (RevListParents1 commit) r =
     (case resolve r commit of
        None \<Rightarrow> (Inl (notName commit), r)
      | Some h \<Rightarrow> (Inr (revLine r h), r))"
| "git RevListParentsReverseHead r =
     (case resolve r ''HEAD'' of
        None \<Rightarrow> (Inl (notName ''HEAD''), r)
      | Some t \<Rightarrow> (Inr (concat (map (revLine r) (rev (ancestors r t)))), r))"
| "git RevListReverseHead r =
     (case resolve r ''HEAD'' of
        None \<Rightarrow> (Inl (notName ''HEAD''), r)
      | Some t \<Rightarrow> (Inr (unlines (rev (ancestors r t))), r))"
| "git (RevListReverseRange parent) r =
     (case (resolve r parent, resolve r ''HEAD'') of
        (Some p, Some t) \<Rightarrow>
          (Inr (unlines (rev (filter (\<lambda>h. h \<notin> set (ancestors r p)) (ancestors r t)))), r)
      | _ \<Rightarrow> (Inl (notName parent), r))"
| "git (RebaseInteractiveRoot editor) r =
     (case map_of (files r) editor of
        None \<Rightarrow> (Inl ''error: there was a problem with the editor'', r)
      | Some body \<Rightarrow>
          (case List.find (\<lambda>p. editorScriptBody (fst p) = body) (files r) of
             None \<Rightarrow> (Inl ''error: there was a problem with the editor'', r)
           | Some (p, todo) \<Rightarrow>
               (case replayAll (todoPicks todo) None r of
                  None \<Rightarrow> (Inl conflictText, r\<lparr>inProgress := Rebasing\<rparr>)
                | Some (None, r') \<Rightarrow> (Inl ''error: nothing to do'', r)
                | Some (Some t, r') \<Rightarrow> (Inr [], moveHeadTo r' t))))"
| "git RebaseAbort r =
     (if inProgress r = Rebasing then (Inr [], r\<lparr>inProgress := Idle\<rparr>)
      else (Inl ''fatal: no rebase in progress'', r))"
| "git (RebaseOnto parent commit branch) r =
     (case (case branch of None \<Rightarrow> (Inr [], r) | Some b \<Rightarrow> switchTo r b) of
        (Inl m, r1) \<Rightarrow> (Inl m, r1)
      | (Inr out, r1) \<Rightarrow>
          (case (resolve r1 parent, resolve r1 commit, resolve r1 ''HEAD'') of
             (Some p, Some c, Some t) \<Rightarrow>
               (case replayAll (rev (filter (\<lambda>h. h \<notin> set (ancestors r1 c)) (ancestors r1 t)))
                               (Some p) r1 of
                  None \<Rightarrow> (Inl conflictText, r1\<lparr>inProgress := Rebasing\<rparr>)
                | Some (None, r2) \<Rightarrow> (Inl (notName parent), r1)
                | Some (Some t2, r2) \<Rightarrow> (Inr [], moveHeadTo r2 t2))
           | _ \<Rightarrow> (Inl (notName commit), r1)))"
| "git (ResetHard parent) r =
     (case resolve r parent of
        None \<Rightarrow> (Inl (notName parent), r)
      | Some h \<Rightarrow> (Inr [], (moveHeadTo r h)\<lparr>inProgress := Idle\<rparr>))"
| "git (CherryPick h) r =
     (case resolve r h of
        None \<Rightarrow> (Inl (''fatal: bad revision '' @ h), r)
      | Some x \<Rightarrow>
          if inProgress r \<noteq> Idle then (Inl ''error: cherry-pick is already in progress'', r)
          else if map_of (objects r) x = None then (Inl (''fatal: bad object '' @ x), r)
          else
            (case replayOne r (resolve r ''HEAD'') x of
               Empty \<Rightarrow>
                 (Inl ''The previous cherry-pick is now empty, possibly due to conflict resolution.'',
                  r\<lparr>inProgress := CherryPicking\<rparr>)
             | Conflict \<Rightarrow> (Inl conflictText, r\<lparr>inProgress := CherryPicking\<rparr>)
             | Picked n r' \<Rightarrow> (Inr [], moveHeadTo r' n)))"
| "git CherryPickSkip r =
     (if inProgress r = CherryPicking then (Inr [], r\<lparr>inProgress := Idle\<rparr>)
      else (Inl ''error: no cherry-pick or revert in progress'', r))"
| "git CherryPickAbort r =
     (if inProgress r = CherryPicking then (Inr [], r\<lparr>inProgress := Idle\<rparr>)
      else (Inl ''error: no cherry-pick or revert in progress'', r))"
| "git (RevParse name) r =
     (case resolve r name of
        None \<Rightarrow> (Inl (notName name), r)
      | Some h \<Rightarrow> (Inr (h @ [CHR 0x0A]), r))"
| "git (RevParseVerify name) r =
     (case resolve r name of
        None \<Rightarrow> (Inl ''fatal: Needed a single revision'', r)
      | Some h \<Rightarrow> (Inr (h @ [CHR 0x0A]), r))"
| "git (Log n rangeExpr) r =
     (case resolve r rangeExpr of
        Some t \<Rightarrow> (Inr (join [CHR 0x0A] (map (logRecord r) (take (nat n) (ancestors r t)))), r)
      | None \<Rightarrow>
          (case splitDots rangeExpr of
             None \<Rightarrow> (Inl (notName rangeExpr), r)
           | Some (a, b) \<Rightarrow>
               (case (resolve r a, resolve r b) of
                  (Some x, Some y) \<Rightarrow>
                    (Inr (join [CHR 0x0A] (map (logRecord r)
                           (take (nat n) (filter (\<lambda>h. h \<notin> set (ancestors r x)) (ancestors r y))))), r)
                | _ \<Rightarrow> (Inl (notName rangeExpr), r))))"
| "git Mkdtemp r = (Inr (''/tmp/git-dnd-'' @ show_nat (tmpCount r)), r\<lparr>tmpCount := Suc (tmpCount r)\<rparr>)"
| "git (WriteFile p content) r = (Inr [], r\<lparr>files := (p, content) # filter (\<lambda>f. fst f \<noteq> p) (files r)\<rparr>)"
| "git (RmTree d) r =
     (Inr [], r\<lparr>files := filter (\<lambda>f. take (Suc (length d)) (fst f) \<noteq> d @ ''/'') (files r)\<rparr>)"

section \<open>Definitions for the statements\<close>

text \<open>
  The answers of the runner to a list of commands run one after the other from a world,
  and the world they leave.
\<close>

fun answers :: "'w runner \<Rightarrow> 'w \<Rightarrow> cmd list \<Rightarrow> (string + string) list" where
  "answers run w [] = []"
| "answers run w (c # cs) = fst (run c w) # answers run (snd (run c w)) cs"

fun runs :: "'w runner \<Rightarrow> 'w \<Rightarrow> cmd list \<Rightarrow> 'w" where
  "runs run w [] = w"
| "runs run w (c # cs) = runs run (snd (run c w)) cs"

fun isLog :: "cmd \<Rightarrow> bool" where
  "isLog (Log n e) = True"
| "isLog c = False"

text \<open>
  What both operations start with: the ancestry test and the test of the working state.
\<close>

definition preconditions :: "'w runner \<Rightarrow> string \<Rightarrow> string \<Rightarrow> ('w, unit) io" where
  "preconditions run branch commit =
     bind (checkAncestor run branch commit) (\<lambda>_. ensureCleanState run)"

definition checkCommands :: "string \<Rightarrow> string \<Rightarrow> cmd set" where
  "checkCommands branch commit =
     {MergeBaseIsAncestor commit branch, DiffQuiet, DiffCachedQuiet, InProgressCheck}"

text \<open>
  \<open>tracks run A m\<close>: whatever the state, \<open>m\<close> adds to the trace only commands of \<open>A\<close>, and
  the world it leaves is the one these commands leave, run in this order.
  \<open>raises E m\<close>: an error of \<open>m\<close> is one of \<open>E\<close>.
\<close>

definition tracks :: "'w runner \<Rightarrow> cmd set \<Rightarrow> ('w, 'a) io \<Rightarrow> bool" where
  "tracks run A m =
     (\<forall>s. \<exists>cs. set cs \<subseteq> A \<and> trace (snd (m s)) = trace s @ cs
                \<and> world (snd (m s)) = runs run (world s) cs)"

definition raises :: "error set \<Rightarrow> ('w, 'a) io \<Rightarrow> bool" where
  "raises E m = (\<forall>s. case fst (m s) of Inl e \<Rightarrow> e \<in> E | Inr x \<Rightarrow> True)"

text \<open>
  The repository of the spec's scenarios: branch \<^verbatim>\<open>feature\<close> is A (root), B, C, D (tip),
  checked out and clean; branch \<^verbatim>\<open>main\<close> is at A.
\<close>

definition featureRepo :: repo where
  "featureRepo =
     \<lparr>objects = [(''D'', \<lparr>parents = [''C''], change = ''d'', needs = []\<rparr>),
                 (''C'', \<lparr>parents = [''B''], change = ''c'', needs = []\<rparr>),
                 (''B'', \<lparr>parents = [''A''], change = ''b'', needs = []\<rparr>),
                 (''A'', \<lparr>parents = [], change = ''a'', needs = []\<rparr>)],
      refs = [(''refs/heads/feature'', ''D''), (''refs/heads/main'', ''A'')],
      HEAD = ''feature'', staged = ''D'', worktree = ''D'', inProgress = Idle,
      files = [], tmpCount = 0\<rparr>"

definition clock :: string where
  "clock = ''2026-01-02T03:04:05.678Z''"

text \<open>
  The same history where the change of C is made on top of that of B, and that of D on top
  of that of C; \<^verbatim>\<open>main\<close> has a commit M of its own on A and is checked out.
\<close>

definition stackedRepo :: repo where
  "stackedRepo =
     \<lparr>objects = [(''M'', \<lparr>parents = [''A''], change = ''m'', needs = []\<rparr>),
                 (''D'', \<lparr>parents = [''C''], change = ''d'', needs = [''c'']\<rparr>),
                 (''C'', \<lparr>parents = [''B''], change = ''c'', needs = [''b'']\<rparr>),
                 (''B'', \<lparr>parents = [''A''], change = ''b'', needs = []\<rparr>),
                 (''A'', \<lparr>parents = [], change = ''a'', needs = []\<rparr>)],
      refs = [(''refs/heads/feature'', ''D''), (''refs/heads/main'', ''M'')],
      HEAD = ''main'', staged = ''M'', worktree = ''M'', inProgress = Idle,
      files = [], tmpCount = 0\<rparr>"

text \<open>That repository in the middle of \<^verbatim>\<open>makeHead\<close>: on \<^verbatim>\<open>feature\<close>, reset to A, backup made.\<close>

definition stackedAfterReset :: repo where
  "stackedAfterReset =
     stackedRepo\<lparr>refs := [(''refs/heads/feature'', ''A''), (''refs/backup/git-dnd/feature-t'', ''D''),
                           (''refs/heads/main'', ''M'')],
                  HEAD := ''feature'', staged := ''A'', worktree := ''A''\<rparr>"

text \<open>
  What \<^verbatim>\<open>makeHead\<close> does before its \<^verbatim>\<open>try\<close> block (the checks, the backup, reading the
  current branch, switching to the target branch), giving \<^verbatim>\<open>currentBranch\<close> and
  \<^verbatim>\<open>switchBack\<close>; and what \<^verbatim>\<open>deleteCommit\<close> does before it looks at the number of parents,
  giving \<^verbatim>\<open>parts\<close>.
\<close>

definition enterBranch :: "'w runner \<Rightarrow> string \<Rightarrow> string \<Rightarrow> string \<Rightarrow> ('w, string \<times> bool) io" where
  "enterBranch run now branch commit =
     bind (preconditions run branch commit) (\<lambda>_.
     bind (createBackup run branch now) (\<lambda>_.
     bind (execPromise run RevParseAbbrevRefHead) (\<lambda>out.
     bind (checkoutIf run (trim out \<noteq> branch) branch) (\<lambda>_.
     return (trim out, trim out \<noteq> branch)))))"

definition deletePrelude :: "'w runner \<Rightarrow> string \<Rightarrow> string \<Rightarrow> string \<Rightarrow> ('w, string list) io" where
  "deletePrelude run now branch commit =
     bind (preconditions run branch commit) (\<lambda>_.
     bind (execPromise run (RevListParents1 commit)) (\<lambda>parentsLine.
     bind (createBackup run branch now) (\<lambda>_.
     return (split_ws (trim parentsLine)))))"

definition succeeded :: "string + string \<Rightarrow> bool" where
  "succeeded a = (case a of Inl m \<Rightarrow> False | Inr out \<Rightarrow> True)"

text \<open>
  Commands that write no reference but, at most, \<^verbatim>\<open>refs/heads/<branch>\<close> by name or the
  checked-out branch; commands that only read.
\<close>

fun keepsOtherRefs :: "string \<Rightarrow> cmd \<Rightarrow> bool" where
  "keepsOtherRefs branch (UpdateRef ref v) = (ref = ''refs/heads/'' @ branch)"
| "keepsOtherRefs branch c = True"

fun isQuery :: "cmd \<Rightarrow> bool" where
  "isQuery (MergeBaseIsAncestor commit branch) = True"
| "isQuery DiffQuiet = True"
| "isQuery DiffCachedQuiet = True"
| "isQuery InProgressCheck = True"
| "isQuery RevParseAbbrevRefHead = True"
| "isQuery (RevListParents1 commit) = True"
| "isQuery RevListParentsReverseHead = True"
| "isQuery RevListReverseHead = True"
| "isQuery (RevListReverseRange parent) = True"
| "isQuery (RevParse name) = True"
| "isQuery (RevParseVerify name) = True"
| "isQuery (Log n rangeExpr) = True"
| "isQuery c = False"

text \<open>One command of the repository model leaves the references alone or sets a branch.\<close>

definition refsStep :: "repo \<Rightarrow> repo \<Rightarrow> bool" where
  "refsStep r r2 =
     (refs r2 = refs r \<or> (\<exists>b h. refs r2 = setRef (''refs/heads/'' @ b) h (refs r)))"

text \<open>
  The commands \<^verbatim>\<open>makeHead\<close> may issue up to the refusal of a merge commit, those
  \<^verbatim>\<open>deleteCommit\<close> issues before it looks at the number of parents, and those it issues
  when it removes the tip of a branch that is not checked out.
\<close>

definition refusalCommands :: "string \<Rightarrow> string \<Rightarrow> string \<Rightarrow> cmd set" where
  "refusalCommands now branch commit =
     checkCommands branch commit
     \<union> {UpdateRef (backupRefName branch now) branch, RevParseAbbrevRefHead, RevListParents1 commit}
     \<union> range Checkout"

definition tipRemovalCommands :: "string \<Rightarrow> string \<Rightarrow> string \<Rightarrow> string \<Rightarrow> cmd set" where
  "tipRemovalCommands now branch commit parent =
     checkCommands branch commit
     \<union> {RevListParents1 commit, UpdateRef (backupRefName branch now) branch, RevParse branch,
        RevParseAbbrevRefHead, UpdateRef (''refs/heads/'' @ branch) parent}"

definition preludeCommands :: "string \<Rightarrow> string \<Rightarrow> string \<Rightarrow> cmd set" where
  "preludeCommands now branch commit =
     checkCommands branch commit
     \<union> {RevListParents1 commit, UpdateRef (backupRefName branch now) branch}"

text \<open>
  A repository with a merge: \<^verbatim>\<open>main\<close> is X, Y and Z (both on X), the merge Mg of Y and Z,
  and T, checked out; \<^verbatim>\<open>topic\<close> is at X; \<^verbatim>\<open>orphan\<close> has the single commit R. The same
  repository with \<^verbatim>\<open>topic\<close> checked out.
\<close>

definition mergeRepo :: repo where
  "mergeRepo =
     \<lparr>objects = [(''T'', \<lparr>parents = [''Mg''], change = ''t'', needs = []\<rparr>),
                 (''Mg'', \<lparr>parents = [''Y'', ''Z''], change = ''mg'', needs = []\<rparr>),
                 (''Z'', \<lparr>parents = [''X''], change = ''z'', needs = []\<rparr>),
                 (''Y'', \<lparr>parents = [''X''], change = ''y'', needs = []\<rparr>),
                 (''X'', \<lparr>parents = [], change = ''x'', needs = []\<rparr>),
                 (''R'', \<lparr>parents = [], change = ''r'', needs = []\<rparr>)],
      refs = [(''refs/heads/main'', ''T''), (''refs/heads/topic'', ''X''),
              (''refs/heads/orphan'', ''R'')],
      HEAD = ''main'', staged = ''T'', worktree = ''T'', inProgress = Idle,
      files = [], tmpCount = 0\<rparr>"

definition onTopic :: repo where
  "onTopic = mergeRepo\<lparr>HEAD := ''topic'', staged := ''X'', worktree := ''X''\<rparr>"

text \<open>The scenario repository with \<^verbatim>\<open>main\<close> checked out.\<close>

definition featureOnMain :: repo where
  "featureOnMain = featureRepo\<lparr>HEAD := ''main'', staged := ''A'', worktree := ''A''\<rparr>"

text \<open>
  The commands an operation may issue, as far as references go: the backup of this
  invocation, and commands that write no other reference than branches.
\<close>

definition engineCommands :: "string \<Rightarrow> string \<Rightarrow> cmd set" where
  "engineCommands now branch =
     insert (UpdateRef (backupRefName branch now) branch) (Collect (keepsOtherRefs branch))"

text \<open>The scenario repository with a backup reference of an earlier day.\<close>

definition featureWithBackup :: repo where
  "featureWithBackup =
     featureRepo\<lparr>refs := (''refs/backup/git-dnd/feature-2025-12-31T00-00-00-000Z'', ''C'')
                          # refs featureRepo\<rparr>"



text \<open>
  The scenario repository with \<^verbatim>\<open>main\<close> checked out and a tag that has the name of the
  branch \<^verbatim>\<open>feature\<close> and stands at B.
\<close>

definition taggedRepo :: repo where
  "taggedRepo = featureOnMain\<lparr>refs := (''refs/tags/feature'', ''B'') # refs featureOnMain\<rparr>"

text \<open>
  A repository whose index another process locks: the first \<open>n\<close> commands are answered as
  usual, and from then on a command that writes the index is refused. (The editor the
  extension runs in starts Git commands of its own on the same repository.)
\<close>

fun writesIndex :: "cmd \<Rightarrow> bool" where
  "writesIndex (Checkout branch) = True"
| "writesIndex (ResetHard parent) = True"
| "writesIndex (CherryPick h) = True"
| "writesIndex CherryPickSkip = True"
| "writesIndex CherryPickAbort = True"
| "writesIndex (RebaseInteractiveRoot editor) = True"
| "writesIndex (RebaseOnto parent commit branch) = True"
| "writesIndex RebaseAbort = True"
| "writesIndex c = False"

definition lockText :: string where
  "lockText = ''fatal: Unable to create .git/index.lock: File exists.''"

definition gitLockedAfter :: "cmd \<Rightarrow> repo \<times> nat \<Rightarrow> (string + string) \<times> (repo \<times> nat)" where
  "gitLockedAfter c w =
     (case w of (r, n) \<Rightarrow>
        if n = 0 \<and> writesIndex c then (Inl lockText, (r, 0))
        else (case git c r of (a, r2) \<Rightarrow> (a, (r2, n - 1))))"

section \<open>Running a command\<close>

lemma execPromise_alt:
  "execPromise run c s =
     (map_sum CommandFailed (\<lambda>x. x) (fst (run c (world s))),
      \<lparr>world = snd (run c (world s)), trace = trace s @ [c]\<rparr>)"
  by (simp add: execPromise_def split: prod.splits sum.splits)

section \<open>The limit of \<^verbatim>\<open>getCommits\<close>\<close>

lemma verifyBase_trace:
  "trace (snd (verifyBase run name s)) = trace s @ [RevParseVerify name]
   \<and> (\<exists>r. fst (verifyBase run name s) = Inr r)"
  by (simp add: verifyBase_def catch_value_def bind_def return_def execPromise_alt
           split: sum.splits)

lemma fallbackBase_trace:
  "(\<exists>pre. trace (snd (fallbackBase run base cs s)) = trace s @ pre \<and> filter isLog pre = [])
   \<and> (\<exists>r. fst (fallbackBase run base cs s) = Inr r)"
proof (induction cs arbitrary: base s)
  case Nil
  show ?case by (simp add: return_def)
next
  case (Cons c cs)
  show ?case
  proof (cases base)
    case (Some b)
    with Cons.IH[of base s] show ?thesis by simp
  next
    case None
    obtain r s1 where v: "verifyBase run c s = (Inr r, s1)"
      and t: "trace s1 = trace s @ [RevParseVerify c]"
      using verifyBase_trace[of run c s] by (cases "verifyBase run c s") auto
    show ?thesis
    proof (cases r)
      case (Some b)
      with None v t show ?thesis
        by (simp add: bind_def return_def)
    next
      case N: None
      from Cons.IH[of None s1]
      obtain pre where "trace (snd (fallbackBase run None cs s1)) = trace s1 @ pre"
        "filter isLog pre = []" and "\<exists>r. fst (fallbackBase run None cs s1) = Inr r"
        by auto
      with None N v t show ?thesis
        by (simp add: bind_def)
    qed
  qed
qed

text \<open>
  C9. Whatever the runner answers and whatever integer \<open>limit\<close> is, \<^verbatim>\<open>getCommits\<close> issues
  exactly one \<^verbatim>\<open>git log\<close>, as its last command, and asks it for
  \<open>max 1 (min 500 limit)\<close> commits, a number between 1 and 500.
\<close>

theorem getCommits_limit_clamped:
  "\<exists>pre rangeExpr.
      trace (snd (getCommits run compareBase ref limit s))
        = trace s @ pre @ [Log (max 1 (min 500 limit)) rangeExpr]
      \<and> filter isLog pre = []
      \<and> 1 \<le> max 1 (min 500 limit) \<and> max 1 (min 500 limit) \<le> 500"
proof -
  define configured where "configured = trim (case compareBase of None \<Rightarrow> [] | Some v \<Rightarrow> v)"
  define m0 where "m0 = (if configured \<noteq> [] then verifyBase run configured else return None)"
  have "(\<exists>b0. fst (m0 s) = Inr b0)
        \<and> (\<exists>pre. trace (snd (m0 s)) = trace s @ pre \<and> filter isLog pre = [])"
    using verifyBase_trace[of run configured s] by (auto simp: m0_def return_def)
  then obtain b0 s1 pre1 where m0: "m0 s = (Inr b0, s1)"
    and t1: "trace s1 = trace s @ pre1" "filter isLog pre1 = []"
    by (cases "m0 s") auto
  obtain b s2 pre2 where fb: "fallbackBase run b0 [''main'', ''master''] s1 = (Inr b, s2)"
    and t2: "trace s2 = trace s1 @ pre2" "filter isLog pre2 = []"
    using fallbackBase_trace[of run b0 "[''main'', ''master'']" s1]
    by (cases "fallbackBase run b0 [''main'', ''master''] s1") (auto simp del: fallbackBase.simps)
  have "\<exists>rangeExpr. trace (snd (getCommits run compareBase ref limit s))
          = trace s @ (pre1 @ pre2) @ [Log (max 1 (min 500 limit)) rangeExpr]"
    using m0 fb t1 t2
    unfolding getCommits_def Let_def configured_def[symmetric] m0_def[symmetric]
    by (simp add: bind_def return_def execPromise_alt split: sum.splits del: fallbackBase.simps)
  moreover have "filter isLog (pre1 @ pre2) = []"
    using t1 t2 by simp
  ultimately show ?thesis by fastforce
qed

section \<open>Commands issued and errors raised\<close>

lemmas io_defs = bind_def return_def throw_def catch_ignore_def catch_value_def try_catch_def
  try_finally_def

lemma runs_append: "runs run w (cs @ ds) = runs run (runs run w cs) ds"
  by (induction cs arbitrary: w) simp_all

lemma tracksI:
  assumes "\<And>s. \<exists>cs. set cs \<subseteq> A \<and> trace (snd (m s)) = trace s @ cs
                \<and> world (snd (m s)) = runs run (world s) cs"
  shows "tracks run A m"
  using assms by (simp add: tracks_def)

lemma tracksD:
  assumes "tracks run A m"
  obtains cs where "set cs \<subseteq> A" "trace (snd (m s)) = trace s @ cs"
    "world (snd (m s)) = runs run (world s) cs"
  using assms unfolding tracks_def by blast

lemma tracks_exec: "c \<in> A \<Longrightarrow> tracks run A (execPromise run c)"
  by (rule tracksI) (rule_tac x = "[c]" in exI, simp add: execPromise_alt)

lemma tracks_return: "tracks run A (return x)"
  by (rule tracksI) (rule_tac x = "[]" in exI, simp add: return_def)

lemma tracks_throw: "tracks run A (throw e)"
  by (rule tracksI) (rule_tac x = "[]" in exI, simp add: throw_def)

lemma tracks_step:
  assumes m: "tracks run A m" and k: "\<And>r s1. tracks run A (k r)"
    and eq: "\<And>s. n s = (case m s of (r, s1) \<Rightarrow> (h r s1))"
    and h: "\<And>r s1. h r s1 = (fst (h r s1), s1) \<or> h r s1 = k r s1"
  shows "tracks run A n"
proof (rule tracksI)
  fix s
  obtain r s1 where ms: "m s = (r, s1)" by (cases "m s")
  from m obtain cs where cs: "set cs \<subseteq> A" "trace s1 = trace s @ cs"
    "world s1 = runs run (world s) cs"
    using ms by (auto elim: tracksD[where s = s])
  from h[of r s1] show "\<exists>cs. set cs \<subseteq> A \<and> trace (snd (n s)) = trace s @ cs
                \<and> world (snd (n s)) = runs run (world s) cs"
  proof
    assume "h r s1 = (fst (h r s1), s1)"
    then have "snd (n s) = s1" using eq[of s] ms by (metis case_prod_conv snd_conv)
    with cs show ?thesis by auto
  next
    assume hk: "h r s1 = k r s1"
    from k[of r] obtain ds where ds: "set ds \<subseteq> A" "trace (snd (k r s1)) = trace s1 @ ds"
      "world (snd (k r s1)) = runs run (world s1) ds"
      by (auto elim: tracksD[where s = s1])
    have "snd (n s) = snd (k r s1)" using eq[of s] ms hk by simp
    with cs ds show ?thesis
      by (intro exI[of _ "cs @ ds"]) (simp add: runs_append)
  qed
qed

lemma tracks_bind:
  assumes "tracks run A m" and "\<And>x. tracks run A (f x)"
  shows "tracks run A (bind m f)"
  by (rule tracks_step[where m = m and k = "\<lambda>r. case r of Inl e \<Rightarrow> throw e | Inr x \<Rightarrow> f x"
        and h = "\<lambda>r s1. case r of Inl e \<Rightarrow> (Inl e, s1) | Inr x \<Rightarrow> f x s1"])
     (auto simp: assms bind_def tracks_throw split: sum.splits prod.splits)

lemma tracks_try_catch:
  assumes "tracks run A m" and "\<And>e. tracks run A (h e)"
  shows "tracks run A (try_catch m h)"
  by (rule tracks_step[where m = m and k = "\<lambda>r. case r of Inl e \<Rightarrow> h e | Inr x \<Rightarrow> return x"
        and h = "\<lambda>r s1. case r of Inl e \<Rightarrow> h e s1 | Inr x \<Rightarrow> (Inr x, s1)"])
     (auto simp: assms try_catch_def tracks_return split: sum.splits prod.splits)

lemma tracks_catch_ignore: "tracks run A m \<Longrightarrow> tracks run A (catch_ignore m)"
  by (rule tracks_step[where m = m and k = "\<lambda>r. return ()" and h = "\<lambda>r s1. (Inr (), s1)"])
     (auto simp: catch_ignore_def tracks_return split: prod.splits)

lemma tracks_catch_value: "tracks run A m \<Longrightarrow> tracks run A (catch_value m v)"
  by (rule tracks_step[where m = m and k = "\<lambda>r. return v"
        and h = "\<lambda>r s1. case r of Inl e \<Rightarrow> (Inr v, s1) | Inr x \<Rightarrow> (Inr x, s1)"])
     (auto simp: catch_value_def tracks_return split: prod.splits sum.splits)

lemma tracks_try_finally:
  assumes "tracks run A m" and "tracks run A f"
  shows "tracks run A (try_finally m f)"
proof (rule tracksI)
  fix s
  obtain r s1 where ms: "m s = (r, s1)" by (cases "m s")
  from assms(1) obtain cs where cs: "set cs \<subseteq> A" "trace s1 = trace s @ cs"
    "world s1 = runs run (world s) cs"
    using ms by (auto elim: tracksD[where s = s])
  from assms(2) obtain ds where ds: "set ds \<subseteq> A" "trace (snd (f s1)) = trace s1 @ ds"
    "world (snd (f s1)) = runs run (world s1) ds"
    by (auto elim: tracksD[where s = s1])
  have "snd (try_finally m f s) = snd (f s1)"
    using ms by (simp add: try_finally_def split: prod.splits sum.splits)
  with cs ds show "\<exists>cs. set cs \<subseteq> A \<and> trace (snd (try_finally m f s)) = trace s @ cs
                \<and> world (snd (try_finally m f s)) = runs run (world s) cs"
    by (intro exI[of _ "cs @ ds"]) (simp add: runs_append)
qed

lemma tracks_if: "tracks run A m \<Longrightarrow> tracks run A n \<Longrightarrow> tracks run A (if b then m else n)"
  by simp

lemma tracks_mono: "tracks run A m \<Longrightarrow> A \<subseteq> B \<Longrightarrow> tracks run B m"
  unfolding tracks_def by (meson subset_trans)

lemmas tracks_intros = tracks_bind tracks_try_catch tracks_catch_ignore tracks_catch_value
  tracks_try_finally tracks_if tracks_return tracks_throw tracks_exec

lemma raisesI: "(\<And>s e. fst (m s) = Inl e \<Longrightarrow> e \<in> E) \<Longrightarrow> raises E m"
  by (auto simp: raises_def split: sum.splits)

lemma raisesD: "raises E m \<Longrightarrow> fst (m s) = Inl e \<Longrightarrow> e \<in> E"
  by (auto simp: raises_def split: sum.splits dest: spec[of _ s])

lemma raises_exec: "(\<And>m. CommandFailed m \<in> E) \<Longrightarrow> raises E (execPromise run c)"
  by (rule raisesI) (auto simp: execPromise_alt map_sum_def split: sum.splits)

lemma raises_return: "raises E (return x)"
  by (rule raisesI) (simp add: return_def)

lemma raises_throw: "e \<in> E \<Longrightarrow> raises E (throw e)"
  by (rule raisesI) (simp add: throw_def)

lemma raises_bind:
  assumes "raises E m" and "\<And>x. raises E (f x)"
  shows "raises E (bind m f)"
proof (rule raisesI)
  fix s e assume a: "fst (bind m f s) = Inl e"
  obtain r s1 where ms: "m s = (r, s1)" by (cases "m s")
  show "e \<in> E"
  proof (cases r)
    case (Inl e')
    with a ms have "e = e'" by (simp add: bind_def)
    with raisesD[OF assms(1), of s e'] ms Inl show ?thesis by simp
  next
    case (Inr x)
    with a ms have "fst (f x s1) = Inl e" by (simp add: bind_def)
    with raisesD[OF assms(2)] show ?thesis by blast
  qed
qed

lemma raises_catch_ignore: "raises E (catch_ignore m)"
  by (rule raisesI) (simp add: catch_ignore_def split: prod.splits)

lemma raises_catch_value: "raises E (catch_value m v)"
  by (rule raisesI) (simp add: catch_value_def split: prod.splits sum.splits)

lemma raises_try_catch:
  assumes "\<And>e. raises E (h e)"
  shows "raises E (try_catch m h)"
proof (rule raisesI)
  fix s e assume a: "fst (try_catch m h s) = Inl e"
  obtain r s1 where ms: "m s = (r, s1)" by (cases "m s")
  with a obtain e' where "fst (h e' s1) = Inl e"
    by (cases r) (auto simp: try_catch_def)
  with raisesD[OF assms] show "e \<in> E" by blast
qed

lemma raises_try_finally:
  assumes "raises E m" and "raises E f"
  shows "raises E (try_finally m f)"
proof (rule raisesI)
  fix s e assume a: "fst (try_finally m f s) = Inl e"
  obtain r s1 where ms: "m s = (r, s1)" by (cases "m s")
  obtain r2 s2 where fs: "f s1 = (r2, s2)" by (cases "f s1")
  show "e \<in> E"
  proof (cases r2)
    case (Inl e')
    with a ms fs have "e = e'" by (simp add: try_finally_def)
    with raisesD[OF assms(2), of s1 e'] fs Inl show ?thesis by simp
  next
    case (Inr u)
    with a ms fs have "r = Inl e" by (simp add: try_finally_def)
    with raisesD[OF assms(1), of s e] ms show ?thesis by simp
  qed
qed

lemma raises_if: "raises E m \<Longrightarrow> raises E n \<Longrightarrow> raises E (if b then m else n)"
  by simp

lemmas raises_intros = raises_bind raises_try_catch raises_catch_ignore raises_catch_value
  raises_try_finally raises_if raises_return raises_throw

section \<open>Failing checks\<close>

lemma tracks_preconditions:
  "tracks run (checkCommands branch commit) (preconditions run branch commit)"
  unfolding preconditions_def checkAncestor_def ensureCleanState_def
  by (intro tracks_intros) (simp_all add: checkCommands_def)

lemma raises_preconditions:
  "raises {NotReachable commit branch, DirtyWorkingState, OperationInProgress}
          (preconditions run branch commit)"
  unfolding preconditions_def checkAncestor_def ensureCleanState_def
  by (intro raises_intros) simp_all

lemma makeHead_starts:
  "makeHead run now branch commit =
     bind (preconditions run branch commit) (\<lambda>_.
     bind (createBackup run branch now) (\<lambda>_.
     bind (execPromise run RevParseAbbrevRefHead) (\<lambda>out.
     let currentBranch = trim out;
         switchBack = (currentBranch \<noteq> branch) in
     bind (checkoutIf run switchBack branch) (\<lambda>_.
     try_finally (repositionBody run branch commit (backupRefName branch now))
                 (checkoutIf run switchBack currentBranch)))))"
  by (rule ext) (simp add: makeHead_def preconditions_def bind_def split: prod.splits sum.splits)

lemma deleteCommit_stops:
  "fst (preconditions run branch commit s) = Inl e \<Longrightarrow>
   deleteCommit run now branch commit s = preconditions run branch commit s"
  by (auto simp: deleteCommit_def preconditions_def bind_def split: prod.splits sum.splits)

lemma checks_pure_git: "c \<in> checkCommands branch commit \<Longrightarrow> snd (git c r) = r"
  by (auto simp: checkCommands_def split: option.splits)

lemma runs_git_checks: "set cs \<subseteq> checkCommands branch commit \<Longrightarrow> runs git r cs = r"
  by (induction cs arbitrary: r) (auto simp: checks_pure_git)

text \<open>
  C4. When the ancestry test or the test of the working state fails, \<^verbatim>\<open>makeHead\<close> and
  \<^verbatim>\<open>deleteCommit\<close> end there with the error of the test: \<open>NotReachable\<close> (also when the
  test command itself fails), \<open>DirtyWorkingState\<close> or \<open>OperationInProgress\<close>. The commands
  issued are some of the four test commands and nothing else, so no backup reference is
  written and no checkout is switched; in the repository model these commands leave the
  repository, and with it every reference, as it was.
\<close>

theorem checks_fail_before_any_effect:
  assumes "fst (preconditions run branch commit s) = Inl e"
  shows "e \<in> {NotReachable commit branch, DirtyWorkingState, OperationInProgress}
    \<and> makeHead run now branch commit s = preconditions run branch commit s
    \<and> deleteCommit run now branch commit s = preconditions run branch commit s
    \<and> (\<exists>cs. set cs \<subseteq> checkCommands branch commit
           \<and> trace (snd (preconditions run branch commit s)) = trace s @ cs
           \<and> world (snd (preconditions run branch commit s)) = runs run (world s) cs)
    \<and> (\<forall>cs r. set cs \<subseteq> checkCommands branch commit \<longrightarrow> runs git r cs = r)"
proof -
  obtain s1 where p: "preconditions run branch commit s = (Inl e, s1)"
    using assms by (cases "preconditions run branch commit s") simp
  have 1: "e \<in> {NotReachable commit branch, DirtyWorkingState, OperationInProgress}"
    using raisesD[OF raises_preconditions assms] .
  have 2: "makeHead run now branch commit s = preconditions run branch commit s"
    using p by (simp add: makeHead_starts bind_def)
  have 3: "deleteCommit run now branch commit s = preconditions run branch commit s"
    using assms by (rule deleteCommit_stops)
  have 4: "\<exists>cs. set cs \<subseteq> checkCommands branch commit
           \<and> trace (snd (preconditions run branch commit s)) = trace s @ cs
           \<and> world (snd (preconditions run branch commit s)) = runs run (world s) cs"
    using tracks_preconditions[of run branch commit] unfolding tracks_def by blast
  from 1 2 3 4 runs_git_checks show ?thesis by blast
qed

text \<open>
  The scenario repository with an edited file: both operations stop after the two
  \<^verbatim>\<open>git diff\<close> commands and leave the repository untouched.
\<close>

theorem checks_fail_before_any_effect_witness:
  "fst (preconditions git ''feature'' ''B''
          \<lparr>world = featureRepo\<lparr>worktree := ''edited''\<rparr>, trace = []\<rparr>) = Inl DirtyWorkingState
   \<and> makeHead git clock ''feature'' ''B'' \<lparr>world = featureRepo\<lparr>worktree := ''edited''\<rparr>, trace = []\<rparr>
       = (Inl DirtyWorkingState,
          \<lparr>world = featureRepo\<lparr>worktree := ''edited''\<rparr>,
           trace = [MergeBaseIsAncestor ''B'' ''feature'', DiffQuiet, DiffCachedQuiet]\<rparr>)
   \<and> deleteCommit git clock ''feature'' ''B'' \<lparr>world = featureRepo\<lparr>worktree := ''edited''\<rparr>, trace = []\<rparr>
       = (Inl DirtyWorkingState,
          \<lparr>world = featureRepo\<lparr>worktree := ''edited''\<rparr>,
           trace = [MergeBaseIsAncestor ''B'' ''feature'', DiffQuiet, DiffCachedQuiet]\<rparr>)"
proof -
  have p: "preconditions git ''feature'' ''B''
             \<lparr>world = featureRepo\<lparr>worktree := ''edited''\<rparr>, trace = []\<rparr>
           = (Inl DirtyWorkingState,
              \<lparr>world = featureRepo\<lparr>worktree := ''edited''\<rparr>,
               trace = [MergeBaseIsAncestor ''B'' ''feature'', DiffQuiet, DiffCachedQuiet]\<rparr>)"
    by code_simp
  then have f: "fst (preconditions git ''feature'' ''B''
             \<lparr>world = featureRepo\<lparr>worktree := ''edited''\<rparr>, trace = []\<rparr>) = Inl DirtyWorkingState"
    by simp
  from checks_fail_before_any_effect[OF f, of clock] p f show ?thesis by simp
qed

section \<open>The replay loop\<close>

lemma replay_append:
  "replay run branch backupRef (xs @ ys) s =
     bind (replay run branch backupRef xs) (\<lambda>_. replay run branch backupRef ys) s"
  by (induction xs arbitrary: s) (auto simp: bind_def return_def split: prod.splits sum.splits)

lemma replayStep_empty:
  assumes "fst (run (CherryPick h) (world s)) = Inl msg"
    and "isEmptyPick (errorText (CommandFailed msg))"
  shows "replayStep run branch backupRef h s
         = (Inr (), \<lparr>world = runs run (world s) [CherryPick h, CherryPickSkip],
                     trace = trace s @ [CherryPick h, CherryPickSkip]\<rparr>)"
  using assms by (simp add: replayStep_def io_defs execPromise_alt)

lemma replayStep_other:
  assumes "fst (run (CherryPick h) (world s)) = Inl msg"
    and "\<not> isEmptyPick (errorText (CommandFailed msg))"
  shows "replayStep run branch backupRef h s
         = (Inl (CommandFailed msg),
            \<lparr>world = runs run (world s)
                       [CherryPick h, CherryPickAbort, UpdateRef (''refs/heads/'' @ branch) backupRef],
             trace = trace s
                       @ [CherryPick h, CherryPickAbort, UpdateRef (''refs/heads/'' @ branch) backupRef]\<rparr>)"
  using assms by (simp add: replayStep_def io_defs execPromise_alt)

text \<open>
  The loop itself, for every runner: let the commits \<open>done\<close> have been replayed and the
  \<^verbatim>\<open>git cherry-pick\<close> of the next commit \<open>h\<close> fail with the text \<open>msg\<close>. When the text
  says that the cherry-pick is now empty, the loop issues \<^verbatim>\<open>git cherry-pick --skip\<close>
  (whose own failure is dropped) and goes on with the remaining commits. Otherwise it
  issues \<^verbatim>\<open>git cherry-pick --abort\<close> and
  \<^verbatim>\<open>git update-ref refs/heads/<branch> <backup>\<close> (failures dropped), issues nothing more,
  and ends with the error of the failed cherry-pick.
\<close>

lemma replay_failed_step:
  assumes "replay run branch backupRef done s = (Inr (), s0)"
    and "fst (run (CherryPick h) (world s0)) = Inl msg"
  shows "(isEmptyPick (errorText (CommandFailed msg)) \<longrightarrow>
            replay run branch backupRef (done @ h # rest) s
              = replay run branch backupRef rest
                  \<lparr>world = runs run (world s0) [CherryPick h, CherryPickSkip],
                   trace = trace s0 @ [CherryPick h, CherryPickSkip]\<rparr>)
       \<and> (\<not> isEmptyPick (errorText (CommandFailed msg)) \<longrightarrow>
            replay run branch backupRef (done @ h # rest) s
              = (Inl (CommandFailed msg),
                 \<lparr>world = runs run (world s0)
                            [CherryPick h, CherryPickAbort,
                             UpdateRef (''refs/heads/'' @ branch) backupRef],
                  trace = trace s0
                            @ [CherryPick h, CherryPickAbort,
                               UpdateRef (''refs/heads/'' @ branch) backupRef]\<rparr>))"
  using assms
    replayStep_empty[where run = run and h = h and s = s0 and msg = msg and branch = branch
      and backupRef = backupRef]
    replayStep_other[where run = run and h = h and s = s0 and msg = msg and branch = branch
      and backupRef = backupRef]
  by (simp add: replay_append bind_def)

text \<open>
  In the repository model: on \<^verbatim>\<open>feature\<close> = A, B, C, D the replay of B is empty, is skipped
  and leaves the repository as it was, and the loop goes on with C. After the reset to A
  of the history whose changes build on one another, the replay of C conflicts: the
  cherry-pick is aborted, the branch is set back to D from the backup, and the conflict
  is the error.
\<close>

lemma replay_failed_step_example:
  "replay git ''feature'' ''refs/backup/git-dnd/feature-t'' [''B'', ''C'']
       \<lparr>world = featureRepo, trace = []\<rparr>
     = replay git ''feature'' ''refs/backup/git-dnd/feature-t'' [''C'']
         \<lparr>world = featureRepo, trace = [CherryPick ''B'', CherryPickSkip]\<rparr>
   \<and> replay git ''feature'' ''refs/backup/git-dnd/feature-t'' [''C'', ''D'', ''B'']
       \<lparr>world = stackedAfterReset, trace = []\<rparr>
     = (Inl (CommandFailed conflictText),
        \<lparr>world = stackedAfterReset
                   \<lparr>refs := [(''refs/heads/feature'', ''D''),
                              (''refs/backup/git-dnd/feature-t'', ''D''),
                              (''refs/heads/main'', ''M'')]\<rparr>,
         trace = [CherryPick ''C'', CherryPickAbort,
                  UpdateRef ''refs/heads/feature'' ''refs/backup/git-dnd/feature-t'']\<rparr>)"
proof -
  let ?bk = "''refs/backup/git-dnd/feature-t''"
  let ?empty = "''The previous cherry-pick is now empty, possibly due to conflict resolution.''"
  have s1: "replay git ''feature'' ?bk [] \<lparr>world = featureRepo, trace = []\<rparr>
              = (Inr (), \<lparr>world = featureRepo, trace = []\<rparr>)"
    by (simp add: return_def)
  have a1: "fst (git (CherryPick ''B'') (world \<lparr>world = featureRepo, trace = []\<rparr>)) = Inl ?empty"
    by code_simp
  have e1: "isEmptyPick (errorText (CommandFailed ?empty))"
    by code_simp
  have w1: "runs git featureRepo [CherryPick ''B'', CherryPickSkip] = featureRepo"
    by code_simp
  have s2: "replay git ''feature'' ?bk [] \<lparr>world = stackedAfterReset, trace = []\<rparr>
              = (Inr (), \<lparr>world = stackedAfterReset, trace = []\<rparr>)"
    by (simp add: return_def)
  have a2: "fst (git (CherryPick ''C'') (world \<lparr>world = stackedAfterReset, trace = []\<rparr>))
              = Inl conflictText"
    by code_simp
  have e2: "\<not> isEmptyPick (errorText (CommandFailed conflictText))"
    by code_simp
  have w2: "runs git stackedAfterReset
              [CherryPick ''C'', CherryPickAbort, UpdateRef (''refs/heads/'' @ ''feature'') ?bk]
            = stackedAfterReset\<lparr>refs := [(''refs/heads/feature'', ''D''),
                                          (''refs/backup/git-dnd/feature-t'', ''D''),
                                          (''refs/heads/main'', ''M'')]\<rparr>"
    by code_simp
  from replay_failed_step[OF s1 a1, of "[''C'']"] e1 w1
       replay_failed_step[OF s2 a2, of "[''D'', ''B'']"] e2 w2
  show ?thesis by simp
qed

text \<open>
  C3. The error the loop ends with is not always the error the caller of \<^verbatim>\<open>makeHead\<close>
  gets: the loop runs inside the \<^verbatim>\<open>try\<close> block whose \<^verbatim>\<open>finally\<close> block checks the original
  branch out again without a guard. In the repository model, with \<^verbatim>\<open>main\<close> = A, M checked
  out and \<^verbatim>\<open>feature\<close> = A, B, C, D where D builds on C, repositioning C resets to B and
  replays D first, which conflicts. The failure is not an empty cherry-pick; the body of
  the \<^verbatim>\<open>try\<close> block aborts the cherry-pick, sets the branch back from the backup and ends
  with the conflict. \<^verbatim>\<open>makeHead\<close> ends with the error of \<^verbatim>\<open>git checkout main\<close>, which is
  refused because index and working tree, at B, differ from the restored branch.
\<close>

theorem makeHead_replay_error_replaced:
  "fst (repositionBody git ''feature'' ''C'' (backupRefName ''feature'' clock)
          (snd (enterBranch git clock ''feature'' ''C'' \<lparr>world = stackedRepo, trace = []\<rparr>)))
     = Inl (CommandFailed conflictText)
   \<and> isEmptyPick (errorText (CommandFailed conflictText)) = False
   \<and> makeHead git clock ''feature'' ''C'' \<lparr>world = stackedRepo, trace = []\<rparr>
     = (Inl (CommandFailed ''error: Your local changes would be overwritten by checkout''),
        \<lparr>world = stackedRepo
                   \<lparr>refs := [(''refs/heads/feature'', ''D''),
                              (''refs/backup/git-dnd/feature-2026-01-02T03-04-05-678Z'', ''D''),
                              (''refs/heads/main'', ''M'')],
                    HEAD := ''feature'', staged := ''B'', worktree := ''B''\<rparr>,
         trace = [MergeBaseIsAncestor ''C'' ''feature'', DiffQuiet, DiffCachedQuiet,
                  InProgressCheck,
                  UpdateRef ''refs/backup/git-dnd/feature-2026-01-02T03-04-05-678Z'' ''feature'',
                  RevParseAbbrevRefHead, Checkout ''feature'', RevListParents1 ''C'',
                  RevListReverseRange ''B'', ResetHard ''B'', CherryPick ''D'', CherryPickAbort,
                  UpdateRef ''refs/heads/feature''
                    ''refs/backup/git-dnd/feature-2026-01-02T03-04-05-678Z'',
                  Checkout ''main'']\<rparr>)"
  by code_simp

section \<open>Restoring the checkout\<close>

text \<open>
  C5. \<^verbatim>\<open>makeHead\<close> restores the checkout in a \<^verbatim>\<open>finally\<close> block whose \<^verbatim>\<open>git checkout\<close>
  is not guarded, so its failure replaces the error the operation ended with. In the
  repository model, with \<^verbatim>\<open>main\<close> = A, M checked out and \<^verbatim>\<open>feature\<close> = A, B, C, D where
  C builds on B: the replay of C on A conflicts, the cherry-pick is aborted and the branch
  set back from the backup; the index and the working tree, still at A, now differ from
  the branch, the \<^verbatim>\<open>git checkout main\<close> of the \<^verbatim>\<open>finally\<close> block fails, and \<^verbatim>\<open>makeHead\<close>
  ends with the checkout's error, not with the conflict, with \<^verbatim>\<open>feature\<close> still checked
  out.
\<close>

theorem makeHead_checkout_failure_replaces_error:
  "makeHead git clock ''feature'' ''B'' \<lparr>world = stackedRepo, trace = []\<rparr>
     = (Inl (CommandFailed ''error: Your local changes would be overwritten by checkout''),
        \<lparr>world = stackedRepo
                   \<lparr>refs := [(''refs/heads/feature'', ''D''),
                              (''refs/backup/git-dnd/feature-2026-01-02T03-04-05-678Z'', ''D''),
                              (''refs/heads/main'', ''M'')],
                    HEAD := ''feature'', staged := ''A'', worktree := ''A''\<rparr>,
         trace = [MergeBaseIsAncestor ''B'' ''feature'', DiffQuiet, DiffCachedQuiet,
                  InProgressCheck,
                  UpdateRef ''refs/backup/git-dnd/feature-2026-01-02T03-04-05-678Z'' ''feature'',
                  RevParseAbbrevRefHead, Checkout ''feature'', RevListParents1 ''B'',
                  RevListReverseRange ''A'', ResetHard ''A'', CherryPick ''C'', CherryPickAbort,
                  UpdateRef ''refs/heads/feature''
                    ''refs/backup/git-dnd/feature-2026-01-02T03-04-05-678Z'',
                  Checkout ''main'']\<rparr>)"
  by code_simp

section \<open>The operations in parts\<close>

lemma makeHead_alt:
  "makeHead run now branch commit =
     bind (enterBranch run now branch commit) (\<lambda>(currentBranch, switchBack).
       try_finally (repositionBody run branch commit (backupRefName branch now))
                   (checkoutIf run switchBack currentBranch))"
  by (rule ext)
     (simp add: makeHead_def enterBranch_def preconditions_def bind_def return_def Let_def
           split: prod.splits sum.splits)

lemma deleteCommit_alt:
  "deleteCommit run now branch commit =
     bind (deletePrelude run now branch commit) (\<lambda>parts.
       if length parts < 2 then deleteRoot run branch (backupRefName branch now)
       else if length parts > 2 then throw DeleteMergeUnsupported
       else deleteOneParent run branch commit (parts ! 1))"
  by (rule ext)
     (simp add: deleteCommit_def deletePrelude_def deleteOneParent_def preconditions_def bind_def
           return_def Let_def split: prod.splits sum.splits)

lemma tracks_checkoutIf: "range Checkout \<subseteq> A \<Longrightarrow> tracks run A (checkoutIf run b name)"
  unfolding checkoutIf_def by (intro tracks_intros) auto

lemma tracks_hasMerges: "RevListParentsReverseHead \<in> A \<Longrightarrow> tracks run A (hasMergesInHistory run)"
  unfolding hasMergesInHistory_def by (intro tracks_intros) auto

lemma tracks_rebaseRoot:
  "Collect (keepsOtherRefs branch) \<subseteq> A \<Longrightarrow>
   tracks run A (rebaseRootWithTodo run branch backupRef picks)"
  unfolding rebaseRootWithTodo_def by (intro tracks_intros) auto

lemma tracks_replayStep:
  "Collect (keepsOtherRefs branch) \<subseteq> A \<Longrightarrow> tracks run A (replayStep run branch backupRef h)"
  unfolding replayStep_def by (intro tracks_intros) auto

lemma tracks_replay:
  "Collect (keepsOtherRefs branch) \<subseteq> A \<Longrightarrow> tracks run A (replay run branch backupRef hs)"
  by (induction hs) (auto intro!: tracks_intros tracks_replayStep)

lemma tracks_reorderFromRoot:
  "Collect (keepsOtherRefs branch) \<subseteq> A \<Longrightarrow>
   tracks run A (reorderFromRoot run branch commit backupRef)"
  unfolding reorderFromRoot_def Let_def
  by (intro tracks_intros tracks_hasMerges tracks_rebaseRoot) auto

lemma tracks_repositionBody:
  "Collect (keepsOtherRefs branch) \<subseteq> A \<Longrightarrow>
   tracks run A (repositionBody run branch commit backupRef)"
  unfolding repositionBody_def Let_def
  by (intro tracks_intros tracks_reorderFromRoot tracks_replay) auto

lemma tracks_deleteRoot:
  "Collect (keepsOtherRefs branch) \<subseteq> A \<Longrightarrow> tracks run A (deleteRoot run branch backupRef)"
  unfolding deleteRoot_def Let_def
  by (intro tracks_intros tracks_hasMerges tracks_rebaseRoot tracks_checkoutIf) auto

lemma tracks_deleteOneParent:
  "Collect (keepsOtherRefs branch) \<subseteq> A \<Longrightarrow>
   tracks run A (deleteOneParent run branch commit parent)"
  unfolding deleteOneParent_def Let_def
  by (intro tracks_intros) auto


section \<open>What the commands do to the repository model\<close>

lemma git_query: "isQuery c \<Longrightarrow> snd (git c r) = r"
  by (cases c) (auto split: option.splits)

lemma map_of_setRef: "map_of (setRef n h rs) k = (if k = n then Some h else map_of rs k)"
  by (induction rs) (auto simp: setRef_def)

lemma refs_replayOne: "replayOne r tip h = Picked n r2 \<Longrightarrow> refs r2 = refs r"
  by (auto simp: replayOne_def Let_def split: option.splits if_splits)

lemma refs_replayAll: "replayAll hs tip r = Some (t, r2) \<Longrightarrow> refs r2 = refs r"
proof (induction hs arbitrary: tip r)
  case Nil
  then show ?case by simp
next
  case (Cons h hs)
  then show ?case
    by (cases "replayOne r tip h") (auto dest: refs_replayOne)
qed

lemma HEAD_replayOne: "replayOne r tip h = Picked n r2 \<Longrightarrow> HEAD r2 = HEAD r"
  by (auto simp: replayOne_def Let_def split: option.splits if_splits)

lemma HEAD_replayAll: "replayAll hs tip r = Some (t, r2) \<Longrightarrow> HEAD r2 = HEAD r"
proof (induction hs arbitrary: tip r)
  case Nil
  then show ?case by simp
next
  case (Cons h hs)
  then show ?case
    by (cases "replayOne r tip h") (auto dest: HEAD_replayOne)
qed

lemma not_heads: "take 11 name \<noteq> ''refs/heads/'' \<Longrightarrow> name \<noteq> ''refs/heads/'' @ b"
  by auto

lemma refs_switchTo: "refs (snd (switchTo r b)) = refs r"
  by (simp add: switchTo_def split: option.splits)

lemma refs_moveHeadTo: "refs (moveHeadTo r h) = setRef (''refs/heads/'' @ HEAD r) h (refs r)"
  by (simp add: moveHeadTo_def headRef_def)

lemma refsStep_same: "refs r2 = refs r \<Longrightarrow> refsStep r r2"
  by (simp add: refsStep_def)

lemma refsStep_move: "refs r2 = refs r \<Longrightarrow> refsStep r (moveHeadTo r2 h)"
  unfolding refsStep_def refs_moveHeadTo by (intro disjI2 exI[of _ "HEAD r2"] exI[of _ h]) simp

lemma git_rebaseOnto_refs: "refsStep r (snd (git (RebaseOnto p cm b) r))"
proof -
  define p1 where "p1 = (case b of None \<Rightarrow> (Inr [], r) | Some b' \<Rightarrow> switchTo r b')"
  obtain res1 r1 where p1: "p1 = (res1, r1)" by (cases p1)
  have "refs (snd p1) = refs r"
    by (cases b) (simp_all add: p1_def refs_switchTo)
  with p1 have r1: "refs r1 = refs r" by simp
  show ?thesis
  proof (cases res1)
    case (Inl m)
    with p1 r1 show ?thesis by (simp add: p1_def[symmetric] refsStep_same)
  next
    case (Inr out)
    show ?thesis
    proof (cases "resolve r1 p")
      case None
      with p1 r1 Inr show ?thesis by (simp add: p1_def[symmetric] refsStep_same)
    next
      case P: (Some p')
      show ?thesis
      proof (cases "resolve r1 cm")
        case None
        with p1 r1 Inr P show ?thesis by (simp add: p1_def[symmetric] refsStep_same)
      next
        case C: (Some c')
        show ?thesis
        proof (cases "resolve r1 ''HEAD''")
          case None
          with p1 r1 Inr P C show ?thesis by (simp add: p1_def[symmetric] refsStep_same)
        next
          case T: (Some t)
          show ?thesis
          proof (cases "replayAll (rev (filter (\<lambda>h. h \<notin> set (ancestors r1 c')) (ancestors r1 t)))
                               (Some p') r1")
            case None
            with p1 r1 Inr P C T show ?thesis by (simp add: p1_def[symmetric] refsStep_same)
          next
            case (Some res)
            obtain t2 r2 where res: "res = (t2, r2)" by (cases res)
            with Some have "refs r2 = refs r1" by (auto dest: refs_replayAll)
            with p1 r1 Inr P C T Some res show ?thesis
              by (cases t2) (simp_all add: p1_def[symmetric] refsStep_same refsStep_move)
          qed
        qed
      qed
    qed
  qed
qed

lemma git_refs_shape:
  assumes "keepsOtherRefs branch c"
  shows "refsStep r (snd (git c r))"
proof (cases c)
  case (UpdateRef ref v)
  with assms show ?thesis by (auto simp: refsStep_def split: option.splits)
next
  case (RebaseInteractiveRoot ed)
  then show ?thesis
    by (auto intro!: refsStep_same refsStep_move dest!: refs_replayAll
             split: option.splits prod.splits)
next
  case (RebaseOnto p cm b)
  then show ?thesis using git_rebaseOnto_refs by simp
next
  case (ResetHard p)
  then show ?thesis
    by (auto simp: refsStep_def refs_moveHeadTo split: option.splits)
next
  case (CherryPick h)
  then show ?thesis
    by (auto intro!: refsStep_same refsStep_move dest!: refs_replayOne
             split: option.splits replayed.splits)
qed (auto simp: refs_switchTo intro!: refsStep_same split: option.splits prod.splits)

lemma git_keeps_other_refs:
  assumes "keepsOtherRefs branch c" and "take 11 name \<noteq> ''refs/heads/''"
  shows "map_of (refs (snd (git c r))) name = map_of (refs r) name"
  using git_refs_shape[OF assms(1), of r] not_heads[OF assms(2)]
  by (auto simp: refsStep_def map_of_setRef)

lemma runs_git_keeps_other_refs:
  assumes "take 11 name \<noteq> ''refs/heads/''"
  shows "set cs \<subseteq> Collect (keepsOtherRefs branch) \<Longrightarrow>
         map_of (refs (runs git r cs)) name = map_of (refs r) name"
  by (induction cs arbitrary: r) (auto simp: git_keeps_other_refs[OF _ assms])

section \<open>Paths through the operations\<close>

lemma answers_append:
  "answers run w (xs @ ys) = answers run w xs @ answers run (runs run w xs) ys"
  by (induction xs arbitrary: w) simp_all

lemma checkoutIf_ok:
  assumes "list_all succeeded (answers run (world s) (if sw then [Checkout name] else []))"
  shows "checkoutIf run sw name s
           = (Inr (), \<lparr>world = runs run (world s) (if sw then [Checkout name] else []),
                        trace = trace s @ (if sw then [Checkout name] else [])\<rparr>)"
  using assms
  by (auto simp: checkoutIf_def io_defs execPromise_alt succeeded_def split: sum.splits)

lemma checkoutIf_any:
  "checkoutIf run sw name s
     = (if sw then map_sum CommandFailed (\<lambda>_. ()) (fst (run (Checkout name) (world s))) else Inr (),
        \<lparr>world = runs run (world s) (if sw then [Checkout name] else []),
         trace = trace s @ (if sw then [Checkout name] else [])\<rparr>)"
  by (cases "fst (run (Checkout name) (world s))")
     (auto simp: checkoutIf_def io_defs execPromise_alt)

lemma replay_all_succeed:
  "list_all succeeded (answers run (world s) (map CherryPick hs)) \<Longrightarrow>
   replay run branch backupRef hs s
     = (Inr (), \<lparr>world = runs run (world s) (map CherryPick hs),
                  trace = trace s @ map CherryPick hs\<rparr>)"
proof (induction hs arbitrary: s)
  case Nil
  then show ?case by (simp add: return_def)
next
  case (Cons h hs)
  from Cons.prems obtain out where o: "fst (run (CherryPick h) (world s)) = Inr out"
    by (cases "fst (run (CherryPick h) (world s))") (auto simp: succeeded_def)
  let ?s1 = "\<lparr>world = snd (run (CherryPick h) (world s)), trace = trace s @ [CherryPick h]\<rparr>"
  have st: "replayStep run branch backupRef h s = (Inr (), ?s1)"
    using o by (simp add: replayStep_def io_defs execPromise_alt)
  from Cons.prems have "list_all succeeded (answers run (world ?s1) (map CherryPick hs))" by simp
  from Cons.IH[OF this] st show ?case by (simp add: bind_def)
qed

lemma repositionBody_one_parent:
  assumes a: "answers run (world s)
             [RevListParents1 commit, RevListReverseRange parent, ResetHard parent]
           = [Inr parentsLine, Inr rangeOut, Inr resetOut]"
    and p: "split_ws (trim parentsLine) = [c, parent]"
    and picks: "list_all succeeded
            (answers run (runs run (world s)
                           [RevListParents1 commit, RevListReverseRange parent, ResetHard parent])
               (map CherryPick (filter (\<lambda>h. h \<noteq> commit) (nonempty_lines rangeOut) @ [commit])))"
  shows "repositionBody run branch commit backupRef s
         = (Inr (),
            \<lparr>world = runs run (world s)
                       ([RevListParents1 commit, RevListReverseRange parent, ResetHard parent]
                        @ map CherryPick (filter (\<lambda>h. h \<noteq> commit) (nonempty_lines rangeOut) @ [commit])),
             trace = trace s
                       @ [RevListParents1 commit, RevListReverseRange parent, ResetHard parent]
                       @ map CherryPick (filter (\<lambda>h. h \<noteq> commit) (nonempty_lines rangeOut) @ [commit])\<rparr>)"
proof -
  let ?seq = "filter (\<lambda>h. h \<noteq> commit) (nonempty_lines rangeOut) @ [commit]"
  let ?s3 = "\<lparr>world = runs run (world s)
                           [RevListParents1 commit, RevListReverseRange parent, ResetHard parent],
              trace = trace s @ [RevListParents1 commit, RevListReverseRange parent, ResetHard parent]\<rparr>"
  have "list_all succeeded (answers run (world ?s3) (map CherryPick ?seq))"
    using picks by simp
  from replay_all_succeed[OF this, of branch backupRef]
  have r: "replay run branch backupRef ?seq ?s3
        = (Inr (), \<lparr>world = runs run (world ?s3) (map CherryPick ?seq),
                     trace = trace ?s3 @ map CherryPick ?seq\<rparr>)" .
  have "repositionBody run branch commit backupRef s = replay run branch backupRef ?seq ?s3"
    using a p by (simp add: repositionBody_def Let_def bind_def execPromise_alt)
  with r show ?thesis by (simp add: runs_append)
qed


lemma makeHead_merge_path:
  assumes e: "enterBranch run now branch commit s = (Inr (currentBranch, switchBack), s1)"
    and a: "fst (run (RevListParents1 commit) (world s1)) = Inr parentsLine"
    and p: "2 < length (split_ws (trim parentsLine))"
  shows "\<exists>e. makeHead run now branch commit s
              = (Inl e,
                 \<lparr>world = runs run (world s1)
                            (RevListParents1 commit
                             # (if switchBack then [Checkout currentBranch] else [])),
                  trace = trace s1
                            @ RevListParents1 commit
                              # (if switchBack then [Checkout currentBranch] else [])\<rparr>)
            \<and> (list_all succeeded
                  (answers run (snd (run (RevListParents1 commit) (world s1)))
                     (if switchBack then [Checkout currentBranch] else []))
                \<longrightarrow> e = ReorderMergeUnsupported)"
proof -
  let ?s2 = "\<lparr>world = snd (run (RevListParents1 commit) (world s1)),
              trace = trace s1 @ [RevListParents1 commit]\<rparr>"
  have body: "repositionBody run branch commit (backupRefName branch now) s1
                = (Inl ReorderMergeUnsupported, ?s2)"
    using a p by (simp add: repositionBody_def Let_def io_defs execPromise_alt)
  show ?thesis
    using e body
    by (cases "fst (run (Checkout currentBranch) (snd (run (RevListParents1 commit) (world s1))))")
       (auto simp: makeHead_alt bind_def try_finally_def checkoutIf_any succeeded_def)
qed

lemma deleteCommit_tip_path:
  assumes e: "deletePrelude run now branch commit s = (Inr [c, parent], s1)"
    and a: "answers run (world s1) [RevParse branch, RevParseAbbrevRefHead]
            = [Inr tipOut, Inr headOut]"
    and t: "trim tipOut = commit"
  shows "deleteCommit run now branch commit s
         = (map_sum CommandFailed (\<lambda>_. ())
              (fst (run (if trim headOut = branch then ResetHard parent
                         else UpdateRef (''refs/heads/'' @ branch) parent)
                        (runs run (world s1) [RevParse branch, RevParseAbbrevRefHead]))),
            \<lparr>world = runs run (world s1)
                       [RevParse branch, RevParseAbbrevRefHead,
                        if trim headOut = branch then ResetHard parent
                        else UpdateRef (''refs/heads/'' @ branch) parent],
             trace = trace s1
                       @ [RevParse branch, RevParseAbbrevRefHead,
                          if trim headOut = branch then ResetHard parent
                          else UpdateRef (''refs/heads/'' @ branch) parent]\<rparr>)"
proof -
  let ?s2 = "\<lparr>world = runs run (world s1) [RevParse branch, RevParseAbbrevRefHead],
              trace = trace s1 @ [RevParse branch, RevParseAbbrevRefHead]\<rparr>"
  let ?final = "if trim headOut = branch then ResetHard parent
                else UpdateRef (''refs/heads/'' @ branch) parent"
  have "deleteOneParent run branch commit parent s1
          = bind (execPromise run ?final) (\<lambda>_. return ()) ?s2"
    using a t
    by (cases "trim headOut = branch")
       (simp_all add: deleteOneParent_def Let_def bind_def execPromise_alt)
  then show ?thesis
    using e
    by (cases "fst (run ?final (world ?s2))")
       (simp_all add: deleteCommit_alt bind_def return_def execPromise_alt)
qed


lemma tracks_enterBranch:
  "tracks run (refusalCommands now branch commit) (enterBranch run now branch commit)"
  unfolding enterBranch_def createBackup_def
  by (intro tracks_intros tracks_checkoutIf tracks_mono[OF tracks_preconditions])
     (auto simp: refusalCommands_def)

lemma tracks_deletePrelude:
  "tracks run (tipRemovalCommands now branch commit parent) (deletePrelude run now branch commit)"
  unfolding deletePrelude_def createBackup_def
  by (intro tracks_intros tracks_mono[OF tracks_preconditions])
     (auto simp: tipRemovalCommands_def)

lemma backup_not_branch: "backupRefName branch now \<noteq> ''refs/heads/'' @ b"
  by (simp add: backupRefName_def)

lemma git_refusal_keeps_branch:
  assumes "c \<in> refusalCommands now branch commit"
  shows "map_of (refs (snd (git c r))) (''refs/heads/'' @ branch)
         = map_of (refs r) (''refs/heads/'' @ branch)"
  using assms backup_not_branch[of branch now branch]
  by (auto simp: refusalCommands_def checkCommands_def git_query map_of_setRef refs_switchTo
           split: option.splits)

lemma runs_preserve:
  assumes "\<And>c r. c \<in> A \<Longrightarrow> f (snd (run c r)) = f r"
  shows "set cs \<subseteq> A \<Longrightarrow> f (runs run r cs) = f r"
  by (induction cs arbitrary: r) (simp_all add: assms)

lemma runs_git_refusal_keeps_branch:
  "set cs \<subseteq> refusalCommands now branch commit \<Longrightarrow>
   map_of (refs (runs git r cs)) (''refs/heads/'' @ branch) = map_of (refs r) (''refs/heads/'' @ branch)"
  by (rule runs_preserve[where f = "\<lambda>r. map_of (refs r) (''refs/heads/'' @ branch)"])
     (rule git_refusal_keeps_branch)

lemma git_tipRemoval_frame:
  assumes "c \<in> tipRemovalCommands now branch commit parent"
  shows "HEAD (snd (git c r)) = HEAD r \<and> staged (snd (git c r)) = staged r
       \<and> worktree (snd (git c r)) = worktree r \<and> objects (snd (git c r)) = objects r
       \<and> inProgress (snd (git c r)) = inProgress r"
  using assms
  by (auto simp: tipRemovalCommands_def checkCommands_def git_query split: option.splits)

lemma git_tipRemoval_refs:
  assumes "c \<in> tipRemovalCommands now branch commit parent"
    and "name \<noteq> backupRefName branch now" and "name \<noteq> ''refs/heads/'' @ branch"
  shows "map_of (refs (snd (git c r))) name = map_of (refs r) name"
  using assms
  by (auto simp: tipRemovalCommands_def checkCommands_def git_query map_of_setRef
           split: option.splits)

lemma runs_git_tipRemoval_frame:
  "set cs \<subseteq> tipRemovalCommands now branch commit parent \<Longrightarrow>
   HEAD (runs git r cs) = HEAD r \<and> staged (runs git r cs) = staged r
   \<and> worktree (runs git r cs) = worktree r \<and> objects (runs git r cs) = objects r
   \<and> inProgress (runs git r cs) = inProgress r"
  using runs_preserve[where f = HEAD and run = git and A = "tipRemovalCommands now branch commit parent"]
    runs_preserve[where f = staged and run = git and A = "tipRemovalCommands now branch commit parent"]
    runs_preserve[where f = worktree and run = git and A = "tipRemovalCommands now branch commit parent"]
    runs_preserve[where f = objects and run = git and A = "tipRemovalCommands now branch commit parent"]
    runs_preserve[where f = inProgress and run = git and A = "tipRemovalCommands now branch commit parent"]
  by (simp add: git_tipRemoval_frame)

lemma runs_git_tipRemoval_refs:
  assumes "name \<noteq> backupRefName branch now" and "name \<noteq> ''refs/heads/'' @ branch"
  shows "set cs \<subseteq> tipRemovalCommands now branch commit parent \<Longrightarrow>
         map_of (refs (runs git r cs)) name = map_of (refs r) name"
  by (rule runs_preserve[where f = "\<lambda>r. map_of (refs r) name"])
     (rule git_tipRemoval_refs[OF _ assms])

lemma git_reset_moves_branch:
  "git (ResetHard parent) r = (Inr out, r2) \<Longrightarrow>
   map_of (refs r2) (''refs/heads/'' @ HEAD r) = resolve r parent"
  by (auto simp: moveHeadTo_def headRef_def map_of_setRef split: option.splits)

lemma git_update_ref_moves_branch:
  "git (UpdateRef ref parent) r = (Inr out, r2) \<Longrightarrow> map_of (refs r2) ref = resolve r parent"
  by (auto simp: map_of_setRef split: option.splits)


lemma tracks_deletePrelude_small:
  "tracks run (preludeCommands now branch commit) (deletePrelude run now branch commit)"
  unfolding deletePrelude_def createBackup_def
  by (intro tracks_intros tracks_mono[OF tracks_preconditions])
     (auto simp: preludeCommands_def)

lemma tracks_state:
  assumes "tracks run A m" and "m s = (r, s1)"
  obtains cs where "set cs \<subseteq> A" "trace s1 = trace s @ cs" "world s1 = runs run (world s) cs"
  using tracksD[OF assms(1), of s] assms(2) by auto

section \<open>Repositioning a commit with one parent\<close>

text \<open>
  For every runner: let \<^verbatim>\<open>makeHead\<close> have passed its checks, made its backup and be on the
  branch, and let \<^verbatim>\<open>git rev-list --parents -n 1\<close> give the commit and one parent. Then
  \<^verbatim>\<open>makeHead\<close> lists the commits after the parent up to the tip, oldest first
  (\<^verbatim>\<open>git rev-list --reverse <parent>..HEAD\<close>), resets the branch hard to the parent, and
  cherry-picks, in this order, the listed names that differ as texts from the name it was
  given, and then that name; when these commands and the checkout back succeed, it
  succeeds and has issued exactly these commands.
\<close>

lemma makeHead_one_parent_replays:
  assumes e: "enterBranch run now branch commit s = (Inr (currentBranch, switchBack), s1)"
    and a: "answers run (world s1)
             [RevListParents1 commit, RevListReverseRange parent, ResetHard parent]
           = [Inr parentsLine, Inr rangeOut, Inr resetOut]"
    and p: "split_ws (trim parentsLine) = [c, parent]"
    and ok: "list_all succeeded
            (answers run (runs run (world s1)
                           [RevListParents1 commit, RevListReverseRange parent, ResetHard parent])
               (map CherryPick (filter (\<lambda>h. h \<noteq> commit) (nonempty_lines rangeOut) @ [commit])
                @ (if switchBack then [Checkout currentBranch] else [])))"
  shows "makeHead run now branch commit s
         = (Inr (),
            \<lparr>world = runs run (world s1)
                       ([RevListParents1 commit, RevListReverseRange parent, ResetHard parent]
                        @ map CherryPick (filter (\<lambda>h. h \<noteq> commit) (nonempty_lines rangeOut) @ [commit])
                        @ (if switchBack then [Checkout currentBranch] else [])),
             trace = trace s1
                       @ [RevListParents1 commit, RevListReverseRange parent, ResetHard parent]
                       @ map CherryPick (filter (\<lambda>h. h \<noteq> commit) (nonempty_lines rangeOut) @ [commit])
                       @ (if switchBack then [Checkout currentBranch] else [])\<rparr>)"
proof -
  let ?three = "[RevListParents1 commit, RevListReverseRange parent, ResetHard parent]"
  let ?seq = "filter (\<lambda>h. h \<noteq> commit) (nonempty_lines rangeOut) @ [commit]"
  let ?leave = "if switchBack then [Checkout currentBranch] else []"
  let ?s2 = "\<lparr>world = runs run (world s1) (?three @ map CherryPick ?seq),
              trace = trace s1 @ ?three @ map CherryPick ?seq\<rparr>"
  from ok have picks: "list_all succeeded
      (answers run (runs run (world s1) ?three) (map CherryPick ?seq))"
    and leave: "list_all succeeded (answers run (world ?s2) ?leave)"
    by (simp_all add: answers_append runs_append)
  have body: "repositionBody run branch commit (backupRefName branch now) s1 = (Inr (), ?s2)"
    using repositionBody_one_parent[OF a p picks] by simp
  have fin: "checkoutIf run switchBack currentBranch ?s2
               = (Inr (), \<lparr>world = runs run (world ?s2) ?leave, trace = trace ?s2 @ ?leave\<rparr>)"
    using checkoutIf_ok[OF leave] .
  show ?thesis
    using e body fin
    by (simp add: makeHead_alt bind_def try_finally_def runs_append)
qed

text \<open>
  In the repository model, with the commit named in full: on \<^verbatim>\<open>feature\<close> = A, B, C, D the
  parent of B is A, the range is B, C, D, the branch is reset to A and C, D, B are
  replayed; the branch ends as A, 'C, 'D, 'B, and the new tip 'B carries the change of B.
\<close>

lemma makeHead_one_parent_replays_example:
  "makeHead git clock ''feature'' ''B'' \<lparr>world = featureRepo, trace = []\<rparr>
     = (Inr (),
        \<lparr>world = featureRepo
                   \<lparr>objects := [([CHR 0x27, CHR ''B''],
                                  \<lparr>parents = [[CHR 0x27, CHR ''D'']], change = ''b'', needs = []\<rparr>),
                                 ([CHR 0x27, CHR ''D''],
                                  \<lparr>parents = [[CHR 0x27, CHR ''C'']], change = ''d'', needs = []\<rparr>),
                                 ([CHR 0x27, CHR ''C''],
                                  \<lparr>parents = [''A''], change = ''c'', needs = []\<rparr>)]
                                @ objects featureRepo,
                    refs := [(''refs/heads/feature'', [CHR 0x27, CHR ''B'']),
                             (''refs/backup/git-dnd/feature-2026-01-02T03-04-05-678Z'', ''D''),
                             (''refs/heads/main'', ''A'')],
                    staged := [CHR 0x27, CHR ''B''], worktree := [CHR 0x27, CHR ''B'']\<rparr>,
         trace = [MergeBaseIsAncestor ''B'' ''feature'', DiffQuiet, DiffCachedQuiet,
                  InProgressCheck,
                  UpdateRef ''refs/backup/git-dnd/feature-2026-01-02T03-04-05-678Z'' ''feature'',
                  RevParseAbbrevRefHead, RevListParents1 ''B'', RevListReverseRange ''A'',
                  ResetHard ''A'', CherryPick ''C'', CherryPick ''D'', CherryPick ''B'']\<rparr>)"
proof -
  let ?bk = "''refs/backup/git-dnd/feature-2026-01-02T03-04-05-678Z''"
  let ?s1 = "\<lparr>world = featureRepo\<lparr>refs := (?bk, ''D'') # refs featureRepo\<rparr>,
              trace = [MergeBaseIsAncestor ''B'' ''feature'', DiffQuiet, DiffCachedQuiet,
                       InProgressCheck, UpdateRef ?bk ''feature'', RevParseAbbrevRefHead]\<rparr>"
  let ?range = "''B'' @ [CHR 0x0A] @ ''C'' @ [CHR 0x0A] @ ''D'' @ [CHR 0x0A]"
  have e: "enterBranch git clock ''feature'' ''B'' \<lparr>world = featureRepo, trace = []\<rparr>
             = (Inr (''feature'', False), ?s1)"
    by code_simp
  have a: "answers git (world ?s1)
             [RevListParents1 ''B'', RevListReverseRange ''A'', ResetHard ''A'']
           = [Inr (''B A'' @ [CHR 0x0A]), Inr ?range, Inr []]"
    by code_simp
  have p: "split_ws (trim (''B A'' @ [CHR 0x0A])) = [''B'', ''A'']"
    by code_simp
  have ok: "list_all succeeded
              (answers git (runs git (world ?s1)
                             [RevListParents1 ''B'', RevListReverseRange ''A'', ResetHard ''A''])
                 (map CherryPick (filter (\<lambda>h. h \<noteq> ''B'') (nonempty_lines ?range) @ [''B''])
                  @ (if False then [Checkout ''feature''] else [])))"
    by code_simp
  have "makeHead git clock ''feature'' ''B'' \<lparr>world = featureRepo, trace = []\<rparr>
         = (Inr (),
            \<lparr>world = runs git (world ?s1)
                       ([RevListParents1 ''B'', RevListReverseRange ''A'', ResetHard ''A'']
                        @ map CherryPick (filter (\<lambda>h. h \<noteq> ''B'') (nonempty_lines ?range) @ [''B''])
                        @ (if False then [Checkout ''feature''] else [])),
             trace = trace ?s1
                       @ [RevListParents1 ''B'', RevListReverseRange ''A'', ResetHard ''A'']
                       @ map CherryPick (filter (\<lambda>h. h \<noteq> ''B'') (nonempty_lines ?range) @ [''B''])
                       @ (if False then [Checkout ''feature''] else [])\<rparr>)"
    by (rule makeHead_one_parent_replays[OF e a p ok])
  also have "\<dots> = (Inr (),
        \<lparr>world = featureRepo
                   \<lparr>objects := [([CHR 0x27, CHR ''B''],
                                  \<lparr>parents = [[CHR 0x27, CHR ''D'']], change = ''b'', needs = []\<rparr>),
                                 ([CHR 0x27, CHR ''D''],
                                  \<lparr>parents = [[CHR 0x27, CHR ''C'']], change = ''d'', needs = []\<rparr>),
                                 ([CHR 0x27, CHR ''C''],
                                  \<lparr>parents = [''A''], change = ''c'', needs = []\<rparr>)]
                                @ objects featureRepo,
                    refs := [(''refs/heads/feature'', [CHR 0x27, CHR ''B'']),
                             (?bk, ''D''),
                             (''refs/heads/main'', ''A'')],
                    staged := [CHR 0x27, CHR ''B''], worktree := [CHR 0x27, CHR ''B'']\<rparr>,
         trace = [MergeBaseIsAncestor ''B'' ''feature'', DiffQuiet, DiffCachedQuiet,
                  InProgressCheck,
                  UpdateRef ?bk ''feature'',
                  RevParseAbbrevRefHead, RevListParents1 ''B'', RevListReverseRange ''A'',
                  ResetHard ''A'', CherryPick ''C'', CherryPick ''D'', CherryPick ''B'']\<rparr>)"
    by code_simp
  finally show ?thesis .
qed


section \<open>Repositioning a merge commit\<close>

text \<open>
  For every runner: let \<^verbatim>\<open>makeHead\<close> have passed its checks, made its backup and be on the
  branch, and let \<^verbatim>\<open>git rev-list --parents -n 1\<close> give the commit and two or more parents.
  Then \<^verbatim>\<open>makeHead\<close> fails, with \<open>ReorderMergeUnsupported\<close> when the checkout back (if one
  is due) succeeds. All it has issued are the checks, the backup, the reading of the current
  branch and of the parents, and checkouts: no reset, no cherry-pick, no rebase, no write
  to the branch; in the repository model such commands leave the branch reference as it
  was.
\<close>

lemma makeHead_refuses_merge_commit:
  assumes e: "enterBranch run now branch commit s = (Inr (currentBranch, switchBack), s1)"
    and a: "fst (run (RevListParents1 commit) (world s1)) = Inr parentsLine"
    and p: "2 < length (split_ws (trim parentsLine))"
  shows "(\<exists>e cs. makeHead run now branch commit s
               = (Inl e, \<lparr>world = runs run (world s) cs, trace = trace s @ cs\<rparr>)
             \<and> set cs \<subseteq> refusalCommands now branch commit
             \<and> (list_all succeeded
                   (answers run (snd (run (RevListParents1 commit) (world s1)))
                      (if switchBack then [Checkout currentBranch] else []))
                 \<longrightarrow> e = ReorderMergeUnsupported))
       \<and> (\<forall>cs r. set cs \<subseteq> refusalCommands now branch commit \<longrightarrow>
             map_of (refs (runs git r cs)) (''refs/heads/'' @ branch)
             = map_of (refs r) (''refs/heads/'' @ branch))"
proof -
  let ?tail = "RevListParents1 commit # (if switchBack then [Checkout currentBranch] else [])"
  from makeHead_merge_path[OF e a p] obtain err where
    m: "makeHead run now branch commit s
          = (Inl err, \<lparr>world = runs run (world s1) ?tail, trace = trace s1 @ ?tail\<rparr>)"
    and ok: "list_all succeeded
                   (answers run (snd (run (RevListParents1 commit) (world s1)))
                      (if switchBack then [Checkout currentBranch] else []))
                 \<longrightarrow> err = ReorderMergeUnsupported"
    by blast
  from tracks_state[OF tracks_enterBranch e] obtain cs where
    cs: "set cs \<subseteq> refusalCommands now branch commit" "trace s1 = trace s @ cs"
      "world s1 = runs run (world s) cs"
    by blast
  have t: "set ?tail \<subseteq> refusalCommands now branch commit"
    by (auto simp: refusalCommands_def)
  have "makeHead run now branch commit s
          = (Inl err, \<lparr>world = runs run (world s) (cs @ ?tail), trace = trace s @ cs @ ?tail\<rparr>)"
    using m cs by (simp add: runs_append)
  moreover have "set (cs @ ?tail) \<subseteq> refusalCommands now branch commit"
    using cs(1) t by simp
  ultimately have "\<exists>e cs. makeHead run now branch commit s
               = (Inl e, \<lparr>world = runs run (world s) cs, trace = trace s @ cs\<rparr>)
             \<and> set cs \<subseteq> refusalCommands now branch commit
             \<and> (list_all succeeded
                   (answers run (snd (run (RevListParents1 commit) (world s1)))
                      (if switchBack then [Checkout currentBranch] else []))
                 \<longrightarrow> e = ReorderMergeUnsupported)"
    using ok by blast
  then show ?thesis
    using runs_git_refusal_keeps_branch by blast
qed


text \<open>
  With \<^verbatim>\<open>topic\<close> checked out, \<^verbatim>\<open>makeHead\<close> on \<^verbatim>\<open>main\<close> and its merge commit Mg fails with
  \<open>ReorderMergeUnsupported\<close>; the backup is the only change to the repository.
\<close>

lemma makeHead_refuses_merge_commit_example:
  "fst (makeHead git clock ''main'' ''Mg'' \<lparr>world = onTopic, trace = []\<rparr>)
     = Inl ReorderMergeUnsupported
   \<and> snd (makeHead git clock ''main'' ''Mg'' \<lparr>world = onTopic, trace = []\<rparr>)
     = \<lparr>world = onTopic\<lparr>refs := (''refs/backup/git-dnd/main-2026-01-02T03-04-05-678Z'', ''T'')
                                   # refs onTopic\<rparr>,
        trace = [MergeBaseIsAncestor ''Mg'' ''main'', DiffQuiet, DiffCachedQuiet, InProgressCheck,
                 UpdateRef ''refs/backup/git-dnd/main-2026-01-02T03-04-05-678Z'' ''main'',
                 RevParseAbbrevRefHead, Checkout ''main'', RevListParents1 ''Mg'',
                 Checkout ''topic'']\<rparr>"
proof -
  let ?bk = "''refs/backup/git-dnd/main-2026-01-02T03-04-05-678Z''"
  let ?s1 = "\<lparr>world = mergeRepo\<lparr>refs := (?bk, ''T'') # refs mergeRepo\<rparr>,
              trace = [MergeBaseIsAncestor ''Mg'' ''main'', DiffQuiet, DiffCachedQuiet,
                       InProgressCheck, UpdateRef ?bk ''main'', RevParseAbbrevRefHead,
                       Checkout ''main'']\<rparr>"
  have e: "enterBranch git clock ''main'' ''Mg'' \<lparr>world = onTopic, trace = []\<rparr>
             = (Inr (''topic'', True), ?s1)"
    by code_simp
  have a: "fst (git (RevListParents1 ''Mg'') (world ?s1)) = Inr (''Mg Y Z'' @ [CHR 0x0A])"
    by code_simp
  have p: "2 < length (split_ws (trim (''Mg Y Z'' @ [CHR 0x0A])))"
    by code_simp
  have ok: "list_all succeeded
              (answers git (snd (git (RevListParents1 ''Mg'') (world ?s1)))
                 (if True then [Checkout ''topic''] else []))"
    by code_simp
  from makeHead_refuses_merge_commit[OF e a p] ok
  have 1: "fst (makeHead git clock ''main'' ''Mg'' \<lparr>world = onTopic, trace = []\<rparr>)
             = Inl ReorderMergeUnsupported"
    by auto
  have 2: "snd (makeHead git clock ''main'' ''Mg'' \<lparr>world = onTopic, trace = []\<rparr>)
     = \<lparr>world = onTopic\<lparr>refs := (?bk, ''T'') # refs onTopic\<rparr>,
        trace = [MergeBaseIsAncestor ''Mg'' ''main'', DiffQuiet, DiffCachedQuiet, InProgressCheck,
                 UpdateRef ?bk ''main'',
                 RevParseAbbrevRefHead, Checkout ''main'', RevListParents1 ''Mg'',
                 Checkout ''topic'']\<rparr>"
    by code_simp
  from 1 2 show ?thesis by simp
qed

text \<open>
  C6. The refusal of a merge commit is thrown inside the \<^verbatim>\<open>try\<close> block whose \<^verbatim>\<open>finally\<close>
  block checks the original branch out again without a guard, so a failure of that
  checkout replaces the refusal. In the repository model with \<^verbatim>\<open>topic\<close> checked out,
  \<^verbatim>\<open>makeHead\<close> on \<^verbatim>\<open>main\<close> and its merge commit Mg ends with \<open>ReorderMergeUnsupported\<close>.
  When another process locks the index after the eighth command of the operation (the
  reading of the parents), the ninth, \<^verbatim>\<open>git checkout topic\<close>, is refused, and \<^verbatim>\<open>makeHead\<close>
  ends with the error of the checkout and leaves \<^verbatim>\<open>main\<close> checked out; the branch
  reference is as it was.
\<close>

theorem makeHead_merge_refusal_replaced:
  "makeHead gitLockedAfter clock ''main'' ''Mg'' \<lparr>world = (onTopic, 8), trace = []\<rparr>
     = (Inl (CommandFailed ''fatal: Unable to create .git/index.lock: File exists.''),
        \<lparr>world = (onTopic\<lparr>refs := (''refs/backup/git-dnd/main-2026-01-02T03-04-05-678Z'', ''T'')
                                     # refs onTopic,
                            HEAD := ''main'', staged := ''T'', worktree := ''T''\<rparr>, 0),
         trace = [MergeBaseIsAncestor ''Mg'' ''main'', DiffQuiet, DiffCachedQuiet, InProgressCheck,
                  UpdateRef ''refs/backup/git-dnd/main-2026-01-02T03-04-05-678Z'' ''main'',
                  RevParseAbbrevRefHead, Checkout ''main'', RevListParents1 ''Mg'',
                  Checkout ''topic'']\<rparr>)
   \<and> fst (makeHead git clock ''main'' ''Mg'' \<lparr>world = onTopic, trace = []\<rparr>)
     = Inl ReorderMergeUnsupported
   \<and> map_of (refs onTopic) ''refs/heads/main'' = Some ''T''"
  by code_simp

section \<open>Removing the tip\<close>

text \<open>
  For every runner: let \<^verbatim>\<open>deleteCommit\<close> have passed its checks and made its backup, the
  commit have exactly one parent, and \<^verbatim>\<open>git rev-parse <branch>\<close> give, as a text, the name
  the operation was given. Then
  \<^verbatim>\<open>deleteCommit\<close> issues one more command after reading the current branch, and ends
  with its outcome: \<^verbatim>\<open>git reset --hard <parent>\<close> when the branch is checked out,
  \<^verbatim>\<open>git update-ref refs/heads/<branch> <parent>\<close> otherwise. Before it, only the checks,
  the reading of the parents and the backup were issued: no cherry-pick and no rebase. In
  the repository model either command, when it succeeds, leaves the branch at the commit
  the parent's name stands for.
\<close>

lemma deleteCommit_tip_fast_path:
  assumes e: "deletePrelude run now branch commit s = (Inr [c, parent], s1)"
    and a: "answers run (world s1) [RevParse branch, RevParseAbbrevRefHead]
            = [Inr tipOut, Inr headOut]"
    and t: "trim tipOut = commit"
  shows "(\<exists>cs. set cs \<subseteq> preludeCommands now branch commit
           \<and> deleteCommit run now branch commit s
             = (map_sum CommandFailed (\<lambda>_. ())
                  (fst (run (if trim headOut = branch then ResetHard parent
                             else UpdateRef (''refs/heads/'' @ branch) parent)
                            (runs run (world s) (cs @ [RevParse branch, RevParseAbbrevRefHead])))),
                \<lparr>world = runs run (world s)
                           (cs @ [RevParse branch, RevParseAbbrevRefHead,
                                  if trim headOut = branch then ResetHard parent
                                  else UpdateRef (''refs/heads/'' @ branch) parent]),
                 trace = trace s @ cs
                           @ [RevParse branch, RevParseAbbrevRefHead,
                              if trim headOut = branch then ResetHard parent
                              else UpdateRef (''refs/heads/'' @ branch) parent]\<rparr>))
       \<and> (\<forall>r out r2. git (ResetHard parent) r = (Inr out, r2) \<longrightarrow>
              map_of (refs r2) (''refs/heads/'' @ HEAD r) = resolve r parent)
       \<and> (\<forall>r out r2. git (UpdateRef (''refs/heads/'' @ branch) parent) r = (Inr out, r2) \<longrightarrow>
              map_of (refs r2) (''refs/heads/'' @ branch) = resolve r parent)"
proof -
  from tracks_state[OF tracks_deletePrelude_small e] obtain cs where
    cs: "set cs \<subseteq> preludeCommands now branch commit" "trace s1 = trace s @ cs"
      "world s1 = runs run (world s) cs"
    by blast
  have "\<exists>cs. set cs \<subseteq> preludeCommands now branch commit
           \<and> deleteCommit run now branch commit s
             = (map_sum CommandFailed (\<lambda>_. ())
                  (fst (run (if trim headOut = branch then ResetHard parent
                             else UpdateRef (''refs/heads/'' @ branch) parent)
                            (runs run (world s) (cs @ [RevParse branch, RevParseAbbrevRefHead])))),
                \<lparr>world = runs run (world s)
                           (cs @ [RevParse branch, RevParseAbbrevRefHead,
                                  if trim headOut = branch then ResetHard parent
                                  else UpdateRef (''refs/heads/'' @ branch) parent]),
                 trace = trace s @ cs
                           @ [RevParse branch, RevParseAbbrevRefHead,
                              if trim headOut = branch then ResetHard parent
                              else UpdateRef (''refs/heads/'' @ branch) parent]\<rparr>)"
    using deleteCommit_tip_path[OF e a t] cs
    by (intro exI[of _ cs]) (simp add: runs_append)
  then show ?thesis
    using git_reset_moves_branch git_update_ref_moves_branch by blast
qed

text \<open>
  In the repository model, removing the tip D of the checked-out \<^verbatim>\<open>feature\<close> ends with
  \<^verbatim>\<open>git reset --hard C\<close> and leaves the branch at C.
\<close>

lemma deleteCommit_tip_fast_path_example:
  "(\<exists>cs. trace (snd (deleteCommit git clock ''feature'' ''D'' \<lparr>world = featureRepo, trace = []\<rparr>))
          = cs @ [RevParse ''feature'', RevParseAbbrevRefHead, ResetHard ''C''])
   \<and> deleteCommit git clock ''feature'' ''D'' \<lparr>world = featureRepo, trace = []\<rparr>
     = (Inr (),
        \<lparr>world = featureRepo
                   \<lparr>refs := [(''refs/heads/feature'', ''C''),
                              (''refs/backup/git-dnd/feature-2026-01-02T03-04-05-678Z'', ''D''),
                              (''refs/heads/main'', ''A'')],
                    staged := ''C'', worktree := ''C''\<rparr>,
         trace = [MergeBaseIsAncestor ''D'' ''feature'', DiffQuiet, DiffCachedQuiet,
                  InProgressCheck, RevListParents1 ''D'',
                  UpdateRef ''refs/backup/git-dnd/feature-2026-01-02T03-04-05-678Z'' ''feature'',
                  RevParse ''feature'', RevParseAbbrevRefHead, ResetHard ''C'']\<rparr>)"
proof -
  let ?bk = "''refs/backup/git-dnd/feature-2026-01-02T03-04-05-678Z''"
  let ?s1 = "\<lparr>world = featureRepo\<lparr>refs := (?bk, ''D'') # refs featureRepo\<rparr>,
              trace = [MergeBaseIsAncestor ''D'' ''feature'', DiffQuiet, DiffCachedQuiet,
                       InProgressCheck, RevListParents1 ''D'', UpdateRef ?bk ''feature'']\<rparr>"
  have e: "deletePrelude git clock ''feature'' ''D'' \<lparr>world = featureRepo, trace = []\<rparr>
             = (Inr [''D'', ''C''], ?s1)"
    by code_simp
  have a: "answers git (world ?s1) [RevParse ''feature'', RevParseAbbrevRefHead]
             = [Inr (''D'' @ [CHR 0x0A]), Inr (''feature'' @ [CHR 0x0A])]"
    by code_simp
  have t: "trim (''D'' @ [CHR 0x0A]) = ''D''"
    by code_simp
  have h: "trim (''feature'' @ [CHR 0x0A]) = ''feature''"
    by code_simp
  from deleteCommit_tip_fast_path[OF e a t] h
  have 1: "\<exists>cs. trace (snd (deleteCommit git clock ''feature'' ''D''
                               \<lparr>world = featureRepo, trace = []\<rparr>))
          = cs @ [RevParse ''feature'', RevParseAbbrevRefHead, ResetHard ''C'']"
    by auto
  have 2: "deleteCommit git clock ''feature'' ''D'' \<lparr>world = featureRepo, trace = []\<rparr>
     = (Inr (),
        \<lparr>world = featureRepo
                   \<lparr>refs := [(''refs/heads/feature'', ''C''), (?bk, ''D''),
                              (''refs/heads/main'', ''A'')],
                    staged := ''C'', worktree := ''C''\<rparr>,
         trace = [MergeBaseIsAncestor ''D'' ''feature'', DiffQuiet, DiffCachedQuiet,
                  InProgressCheck, RevListParents1 ''D'', UpdateRef ?bk ''feature'',
                  RevParse ''feature'', RevParseAbbrevRefHead, ResetHard ''C'']\<rparr>)"
    by code_simp
  from 1 2 show ?thesis by blast
qed

text \<open>
  On the same path, when the branch is not the one checked out, every command
  \<^verbatim>\<open>deleteCommit\<close> issues is a check, a read, the backup or, last, the update of
  \<^verbatim>\<open>refs/heads/<branch>\<close>: no checkout and no reset. In the repository model such
  commands leave the current branch, the index and the working tree as they were, and
  every reference but the branch's and the backup's.
\<close>

lemma deleteCommit_tip_of_other_branch_frame:
  assumes e: "deletePrelude run now branch commit s = (Inr [c, parent], s1)"
    and a: "answers run (world s1) [RevParse branch, RevParseAbbrevRefHead]
            = [Inr tipOut, Inr headOut]"
    and t: "trim tipOut = commit"
    and h: "trim headOut \<noteq> branch"
  shows "(\<exists>cs. snd (deleteCommit run now branch commit s)
                = \<lparr>world = runs run (world s) cs, trace = trace s @ cs\<rparr>
             \<and> set cs \<subseteq> tipRemovalCommands now branch commit parent
             \<and> last cs = UpdateRef (''refs/heads/'' @ branch) parent)
       \<and> (\<forall>b. Checkout b \<notin> tipRemovalCommands now branch commit parent)
       \<and> (\<forall>p. ResetHard p \<notin> tipRemovalCommands now branch commit parent)
       \<and> (\<forall>cs r. set cs \<subseteq> tipRemovalCommands now branch commit parent \<longrightarrow>
             HEAD (runs git r cs) = HEAD r \<and> staged (runs git r cs) = staged r
             \<and> worktree (runs git r cs) = worktree r
             \<and> (\<forall>name. name \<noteq> backupRefName branch now \<and> name \<noteq> ''refs/heads/'' @ branch \<longrightarrow>
                   map_of (refs (runs git r cs)) name = map_of (refs r) name))"
proof -
  let ?three = "[RevParse branch, RevParseAbbrevRefHead, UpdateRef (''refs/heads/'' @ branch) parent]"
  from tracks_state[OF tracks_deletePrelude e] obtain cs where
    cs: "set cs \<subseteq> tipRemovalCommands now branch commit parent" "trace s1 = trace s @ cs"
      "world s1 = runs run (world s) cs"
    by blast
  have "snd (deleteCommit run now branch commit s)
          = \<lparr>world = runs run (world s) (cs @ ?three), trace = trace s @ cs @ ?three\<rparr>"
    using deleteCommit_tip_path[OF e a t] cs h by (simp add: runs_append)
  moreover have "set (cs @ ?three) \<subseteq> tipRemovalCommands now branch commit parent"
    using cs(1) by (simp add: tipRemovalCommands_def)
  moreover have "last (cs @ ?three) = UpdateRef (''refs/heads/'' @ branch) parent"
    by simp
  ultimately have 1: "\<exists>cs. snd (deleteCommit run now branch commit s)
                = \<lparr>world = runs run (world s) cs, trace = trace s @ cs\<rparr>
             \<and> set cs \<subseteq> tipRemovalCommands now branch commit parent
             \<and> last cs = UpdateRef (''refs/heads/'' @ branch) parent"
    by blast
  have 2: "\<forall>b. Checkout b \<notin> tipRemovalCommands now branch commit parent"
    and 3: "\<forall>p. ResetHard p \<notin> tipRemovalCommands now branch commit parent"
    by (simp_all add: tipRemovalCommands_def checkCommands_def)
  from 1 2 3 runs_git_tipRemoval_frame runs_git_tipRemoval_refs show ?thesis
    by blast
qed


text \<open>
  In the repository model, with \<^verbatim>\<open>main\<close> checked out, removing the tip D of \<^verbatim>\<open>feature\<close>
  leaves \<^verbatim>\<open>main\<close> checked out, index and working tree at A, \<^verbatim>\<open>main\<close> at A, and moves
  \<^verbatim>\<open>feature\<close> to C.
\<close>

lemma deleteCommit_tip_of_other_branch_frame_example:
  "HEAD (world (snd (deleteCommit git clock ''feature'' ''D'' \<lparr>world = featureOnMain, trace = []\<rparr>)))
     = ''main''
   \<and> staged (world (snd (deleteCommit git clock ''feature'' ''D''
                           \<lparr>world = featureOnMain, trace = []\<rparr>))) = ''A''
   \<and> worktree (world (snd (deleteCommit git clock ''feature'' ''D''
                             \<lparr>world = featureOnMain, trace = []\<rparr>))) = ''A''
   \<and> map_of (refs (world (snd (deleteCommit git clock ''feature'' ''D''
                                 \<lparr>world = featureOnMain, trace = []\<rparr>)))) ''refs/heads/main''
     = Some ''A''
   \<and> map_of (refs (world (snd (deleteCommit git clock ''feature'' ''D''
                                 \<lparr>world = featureOnMain, trace = []\<rparr>)))) ''refs/heads/feature''
     = Some ''C''"
proof -
  let ?bk = "''refs/backup/git-dnd/feature-2026-01-02T03-04-05-678Z''"
  let ?s0 = "\<lparr>world = featureOnMain, trace = []\<rparr>"
  let ?s1 = "\<lparr>world = featureOnMain\<lparr>refs := (?bk, ''D'') # refs featureOnMain\<rparr>,
              trace = [MergeBaseIsAncestor ''D'' ''feature'', DiffQuiet, DiffCachedQuiet,
                       InProgressCheck, RevListParents1 ''D'', UpdateRef ?bk ''feature'']\<rparr>"
  have e: "deletePrelude git clock ''feature'' ''D'' ?s0 = (Inr [''D'', ''C''], ?s1)"
    by code_simp
  have a: "answers git (world ?s1) [RevParse ''feature'', RevParseAbbrevRefHead]
             = [Inr (''D'' @ [CHR 0x0A]), Inr (''main'' @ [CHR 0x0A])]"
    by code_simp
  have t: "trim (''D'' @ [CHR 0x0A]) = ''D''"
    by code_simp
  have h: "trim (''main'' @ [CHR 0x0A]) \<noteq> ''feature''"
    by code_simp
  have n: "''refs/heads/main'' \<noteq> backupRefName ''feature'' clock"
    "''refs/heads/main'' \<noteq> ''refs/heads/'' @ ''feature''"
    by (simp_all add: backupRefName_def)
  from deleteCommit_tip_of_other_branch_frame[OF e a t h] obtain cs where
    1: "snd (deleteCommit git clock ''feature'' ''D'' ?s0)
          = \<lparr>world = runs git (world ?s0) cs, trace = trace ?s0 @ cs\<rparr>"
    and 2: "set cs \<subseteq> tipRemovalCommands clock ''feature'' ''D'' ''C''"
    and 3: "HEAD (runs git (world ?s0) cs) = HEAD (world ?s0)
            \<and> staged (runs git (world ?s0) cs) = staged (world ?s0)
            \<and> worktree (runs git (world ?s0) cs) = worktree (world ?s0)
            \<and> map_of (refs (runs git (world ?s0) cs)) ''refs/heads/main''
              = map_of (refs (world ?s0)) ''refs/heads/main''"
    using n by blast
  have 4: "map_of (refs (world (snd (deleteCommit git clock ''feature'' ''D'' ?s0))))
             ''refs/heads/feature'' = Some ''C''"
    by code_simp
  from 1 3 4 show ?thesis
    by (simp add: featureOnMain_def featureRepo_def)
qed



section \<open>Removing the only commit\<close>

text \<open>
  C7. \<^verbatim>\<open>deleteCommit\<close> looks for merges in the history of the checked-out branch before it
  switches to the target branch. In the repository model: \<^verbatim>\<open>orphan\<close> has the single
  commit R and \<^verbatim>\<open>main\<close>, whose history has a merge, is checked out; removing R from
  \<^verbatim>\<open>orphan\<close> fails with \<open>DeleteRootAcrossMerges\<close>, not with \<open>CannotDeleteOnlyCommit\<close>.
  With \<^verbatim>\<open>topic\<close> checked out, whose history has no merge, the same call fails with
  \<open>CannotDeleteOnlyCommit\<close>.
\<close>

theorem deleteCommit_only_commit_wrong_error:
  "deleteCommit git clock ''orphan'' ''R'' \<lparr>world = mergeRepo, trace = []\<rparr>
     = (Inl DeleteRootAcrossMerges,
        \<lparr>world = mergeRepo\<lparr>refs := (''refs/backup/git-dnd/orphan-2026-01-02T03-04-05-678Z'', ''R'')
                                     # refs mergeRepo\<rparr>,
         trace = [MergeBaseIsAncestor ''R'' ''orphan'', DiffQuiet, DiffCachedQuiet,
                  InProgressCheck, RevListParents1 ''R'',
                  UpdateRef ''refs/backup/git-dnd/orphan-2026-01-02T03-04-05-678Z'' ''orphan'',
                  RevListParentsReverseHead]\<rparr>)
   \<and> fst (deleteCommit git clock ''orphan'' ''R'' \<lparr>world = onTopic, trace = []\<rparr>)
     = Inl CannotDeleteOnlyCommit"
  by code_simp

section \<open>Backup references\<close>

lemma tracks_makeHead: "tracks run (engineCommands now branch) (makeHead run now branch commit)"
  unfolding makeHead_def createBackup_def checkAncestor_def ensureCleanState_def Let_def
  by (intro tracks_intros tracks_repositionBody tracks_checkoutIf) (auto simp: engineCommands_def)

lemma tracks_deleteCommit: "tracks run (engineCommands now branch) (deleteCommit run now branch commit)"
  unfolding deleteCommit_def createBackup_def checkAncestor_def ensureCleanState_def Let_def
  by (intro tracks_intros tracks_deleteRoot tracks_deleteOneParent) (auto simp: engineCommands_def)

lemma backup_not_heads: "take 11 (backupRefName branch now) \<noteq> ''refs/heads/''"
  by (simp add: backupRefName_def)

lemma git_engine_keeps:
  assumes "c \<in> engineCommands now branch"
    and "name \<noteq> backupRefName branch now" and "take 11 name \<noteq> ''refs/heads/''"
  shows "map_of (refs (snd (git c r))) name = map_of (refs r) name"
proof (cases "c = UpdateRef (backupRefName branch now) branch")
  case True
  with assms(2) show ?thesis by (auto simp: map_of_setRef split: option.splits)
next
  case False
  with assms(1) have "keepsOtherRefs branch c" by (simp add: engineCommands_def)
  from git_keeps_other_refs[OF this assms(3)] show ?thesis .
qed

lemma runs_git_engine_keeps:
  assumes "name \<noteq> backupRefName branch now" and "take 11 name \<noteq> ''refs/heads/''"
  shows "set cs \<subseteq> engineCommands now branch \<Longrightarrow>
         map_of (refs (runs git r cs)) name = map_of (refs r) name"
  by (rule runs_preserve[where f = "\<lambda>r. map_of (refs r) name"])
     (rule git_engine_keeps[OF _ assms])

lemma other_refs_kept:
  assumes "tracks git (engineCommands now branch) m"
    and "name \<noteq> backupRefName branch now" and "take 11 name \<noteq> ''refs/heads/''"
  shows "map_of (refs (world (snd (m s)))) name = map_of (refs (world s)) name"
proof -
  from tracksD[OF assms(1), of s] obtain cs where
    "set cs \<subseteq> engineCommands now branch" "world (snd (m s)) = runs git (world s) cs"
    by blast
  with runs_git_engine_keeps[OF assms(2,3)] show ?thesis by simp
qed

lemma preconditions_git:
  assumes "fst (preconditions git branch commit s) = Inr ()"
  shows "world (snd (preconditions git branch commit s)) = world s
       \<and> (\<exists>t. resolve (world s) branch = Some t) \<and> (\<exists>x. resolve (world s) commit = Some x)"
proof -
  from tracks_preconditions[of git branch commit] obtain cs where
    "set cs \<subseteq> checkCommands branch commit"
    "world (snd (preconditions git branch commit s)) = runs git (world s) cs"
    unfolding tracks_def by blast
  then have 1: "world (snd (preconditions git branch commit s)) = world s"
    by (simp add: runs_git_checks)
  have "\<exists>out. fst (git (MergeBaseIsAncestor commit branch) (world s)) = Inr out"
    using assms
    by (cases "fst (git (MergeBaseIsAncestor commit branch) (world s))")
       (auto simp: preconditions_def checkAncestor_def io_defs execPromise_alt)
  then have 2: "(\<exists>t. resolve (world s) branch = Some t) \<and> (\<exists>x. resolve (world s) commit = Some x)"
    by (auto split: option.splits if_splits)
  from 1 2 show ?thesis by simp
qed

lemma kept_after:
  assumes "tracks git (Collect (keepsOtherRefs branch)) m"
  shows "map_of (refs (world (snd (m s)))) (backupRefName branch now)
         = map_of (refs (world s)) (backupRefName branch now)"
proof -
  from tracksD[OF assms, of s] obtain cs where
    "set cs \<subseteq> Collect (keepsOtherRefs branch)" "world (snd (m s)) = runs git (world s) cs"
    by blast
  with runs_git_keeps_other_refs[OF backup_not_heads] show ?thesis by simp
qed

lemma makeHead_backup_value:
  assumes "fst (preconditions git branch commit s) = Inr ()"
  shows "map_of (refs (world (snd (makeHead git now branch commit s)))) (backupRefName branch now)
         = resolve (world s) branch"
proof -
  define rest where "rest =
     bind (execPromise git RevParseAbbrevRefHead) (\<lambda>out.
     let currentBranch = trim out;
         switchBack = (currentBranch \<noteq> branch) in
     bind (checkoutIf git switchBack branch) (\<lambda>_.
     try_finally (repositionBody git branch commit (backupRefName branch now))
                 (checkoutIf git switchBack currentBranch)))"
  have tr: "tracks git (Collect (keepsOtherRefs branch)) rest"
    unfolding rest_def Let_def
    by (intro tracks_intros tracks_repositionBody tracks_checkoutIf) auto
  obtain s1 where p: "preconditions git branch commit s = (Inr (), s1)"
    using assms by (cases "preconditions git branch commit s") simp
  from preconditions_git[OF assms] p obtain t where
    w: "world s1 = world s" and t: "resolve (world s) branch = Some t"
    by auto
  let ?s2 = "\<lparr>world = (world s)\<lparr>refs := setRef (backupRefName branch now) t (refs (world s))\<rparr>,
              trace = trace s1 @ [UpdateRef (backupRefName branch now) branch]\<rparr>"
  have "makeHead git now branch commit s = rest ?s2"
    using p w t unfolding makeHead_starts rest_def[symmetric]
    by (simp add: bind_def createBackup_def catch_ignore_def execPromise_alt)
  with kept_after[OF tr, of ?s2 now] t show ?thesis
    by (simp add: map_of_setRef)
qed

lemma deleteCommit_backup_value:
  assumes "fst (preconditions git branch commit s) = Inr ()"
  shows "map_of (refs (world (snd (deleteCommit git now branch commit s)))) (backupRefName branch now)
         = resolve (world s) branch"
proof -
  define rest where "rest = (\<lambda>parts.
     if length parts < 2 then deleteRoot git branch (backupRefName branch now)
     else if length parts > 2 then throw DeleteMergeUnsupported
     else deleteOneParent git branch commit (parts ! 1))"
  have tr: "\<And>parts. tracks git (Collect (keepsOtherRefs branch)) (rest parts)"
    unfolding rest_def
    by (intro tracks_intros tracks_deleteRoot tracks_deleteOneParent) auto
  obtain s1 where p: "preconditions git branch commit s = (Inr (), s1)"
    using assms by (cases "preconditions git branch commit s") simp
  from preconditions_git[OF assms] p obtain t x where
    w: "world s1 = world s" and t: "resolve (world s) branch = Some t"
    and x: "resolve (world s) commit = Some x"
    by auto
  let ?s3 = "\<lparr>world = (world s)\<lparr>refs := setRef (backupRefName branch now) t (refs (world s))\<rparr>,
              trace = trace s1 @ [RevListParents1 commit, UpdateRef (backupRefName branch now) branch]\<rparr>"
  have "deleteCommit git now branch commit s = rest (split_ws (trim (revLine (world s) x))) ?s3"
    using p w t x unfolding deleteCommit_alt rest_def[symmetric]
    by (simp add: deletePrelude_def bind_def return_def createBackup_def catch_ignore_def
          execPromise_alt)
  with kept_after[OF tr, of _ ?s3 now] t show ?thesis
    by (simp add: map_of_setRef)
qed

text \<open>
  For every runner, every \<^verbatim>\<open>git update-ref\<close> that \<^verbatim>\<open>makeHead\<close> or \<^verbatim>\<open>deleteCommit\<close> issues
  writes the backup reference of this invocation, from the name of the branch as it was
  given, or \<^verbatim>\<open>refs/heads/<branch>\<close>, and no command deletes a reference. In the repository
  model an operation leaves every reference outside \<^verbatim>\<open>refs/heads/\<close> with another name
  than its own backup as it was, and, once its checks have passed, its backup reference
  points at the commit that the name of the branch stood for, as a revision, when the
  operation began, whatever happens later in it.
\<close>

lemma backup_references_additive:
  "tracks run (engineCommands now branch) (makeHead run now branch commit)
   \<and> tracks run (engineCommands now branch) (deleteCommit run now branch commit)
   \<and> (\<forall>name. name \<noteq> backupRefName branch now \<and> take 11 name \<noteq> ''refs/heads/'' \<longrightarrow>
         map_of (refs (world (snd (makeHead git now branch commit s)))) name
           = map_of (refs (world s)) name
         \<and> map_of (refs (world (snd (deleteCommit git now branch commit s)))) name
           = map_of (refs (world s)) name)
   \<and> (fst (preconditions git branch commit s) = Inr () \<longrightarrow>
         map_of (refs (world (snd (makeHead git now branch commit s)))) (backupRefName branch now)
           = resolve (world s) branch
         \<and> map_of (refs (world (snd (deleteCommit git now branch commit s))))
              (backupRefName branch now)
           = resolve (world s) branch)"
proof (intro conjI allI impI)
  fix name
  assume "name \<noteq> backupRefName branch now \<and> take 11 name \<noteq> ''refs/heads/''"
  then have n: "name \<noteq> backupRefName branch now" "take 11 name \<noteq> ''refs/heads/''"
    by simp_all
  show "map_of (refs (world (snd (makeHead git now branch commit s)))) name
          = map_of (refs (world s)) name"
    by (rule other_refs_kept[OF tracks_makeHead n])
  show "map_of (refs (world (snd (deleteCommit git now branch commit s)))) name
          = map_of (refs (world s)) name"
    by (rule other_refs_kept[OF tracks_deleteCommit n])
next
  assume p: "fst (preconditions git branch commit s) = Inr ()"
  show "map_of (refs (world (snd (makeHead git now branch commit s)))) (backupRefName branch now)
          = resolve (world s) branch"
    by (rule makeHead_backup_value[OF p])
  show "map_of (refs (world (snd (deleteCommit git now branch commit s))))
          (backupRefName branch now) = resolve (world s) branch"
    by (rule deleteCommit_backup_value[OF p])
qed (rule tracks_makeHead tracks_deleteCommit)+

text \<open>
  With a backup of an earlier day in place, \<^verbatim>\<open>makeHead\<close> leaves that backup at C and makes
  its own at D, the tip of \<^verbatim>\<open>feature\<close> before the operation.
\<close>

lemma backup_references_additive_example:
  "map_of (refs (world (snd (makeHead git clock ''feature'' ''B''
                               \<lparr>world = featureWithBackup, trace = []\<rparr>))))
          ''refs/backup/git-dnd/feature-2025-12-31T00-00-00-000Z'' = Some ''C''
   \<and> map_of (refs (world (snd (makeHead git clock ''feature'' ''B''
                               \<lparr>world = featureWithBackup, trace = []\<rparr>))))
          (backupRefName ''feature'' clock) = Some ''D''"
proof -
  let ?old = "''refs/backup/git-dnd/feature-2025-12-31T00-00-00-000Z''"
  let ?s = "\<lparr>world = featureWithBackup, trace = []\<rparr>"
  have n: "?old \<noteq> backupRefName ''feature'' clock \<and> take 11 ?old \<noteq> ''refs/heads/''"
    by code_simp
  have p: "fst (preconditions git ''feature'' ''B'' ?s) = Inr ()"
    by code_simp
  have o: "map_of (refs (world ?s)) ?old = Some ''C''"
    by code_simp
  have t: "resolve (world ?s) ''feature'' = Some ''D''"
    by code_simp
  from backup_references_additive[where run = git and now = clock and branch = "''feature''"
      and commit = "''B''" and s = ?s] n p o t
  show ?thesis by simp
qed

text \<open>
  C8. The backup is made with \<^verbatim>\<open>git update-ref <backup> <branch>\<close>, where the branch is
  named as the operation was given it, not as \<^verbatim>\<open>refs/heads/<branch>\<close>; Git reads that name
  as a revision, and a tag of the same name stands before the branch. In the repository
  model, with \<^verbatim>\<open>feature\<close> = A, B, C, D, a tag \<^verbatim>\<open>feature\<close> at B and \<^verbatim>\<open>main\<close> checked out,
  repositioning B succeeds and moves the branch to the replayed commit 'B, and the backup
  reference it has made points at B, not at D, where the branch stood.
\<close>

theorem backup_made_from_tag_of_same_name:
  "map_of (refs taggedRepo) ''refs/heads/feature'' = Some ''D''
   \<and> fst (makeHead git clock ''feature'' ''B'' \<lparr>world = taggedRepo, trace = []\<rparr>) = Inr ()
   \<and> trace (snd (makeHead git clock ''feature'' ''B'' \<lparr>world = taggedRepo, trace = []\<rparr>))
     = [MergeBaseIsAncestor ''B'' ''feature'', DiffQuiet, DiffCachedQuiet, InProgressCheck,
        UpdateRef ''refs/backup/git-dnd/feature-2026-01-02T03-04-05-678Z'' ''feature'',
        RevParseAbbrevRefHead, Checkout ''feature'', RevListParents1 ''B'',
        RevListReverseRange ''A'', ResetHard ''A'', CherryPick ''C'', CherryPick ''D'',
        CherryPick ''B'', Checkout ''main'']
   \<and> refs (world (snd (makeHead git clock ''feature'' ''B'' \<lparr>world = taggedRepo, trace = []\<rparr>)))
     = [(''refs/heads/feature'', [CHR 0x27, CHR ''B'']),
        (''refs/backup/git-dnd/feature-2026-01-02T03-04-05-678Z'', ''B''),
        (''refs/tags/feature'', ''B''), (''refs/heads/main'', ''A'')]"
  by code_simp

end
